theory Spec2Isabelle
  imports Main "HOL-Library.Sublist"
begin

section \<open>Query extraction from component sources (file-parser)\<close>

text \<open>
  A shallow embedding of the query extraction engine: \<open>generateQueryName\<close>,
  \<open>parseToAst\<close>, \<open>findGraphQLTags\<close> (with its three traversal passes and the
  final \<open>uniqBy\<close>), and the \<open>FileParser\<close> class with \<open>parseFile\<close> and
  \<open>parseFiles\<close>.

  Everything the source obtains from other packages is a field of the record
  \<open>externals\<close>: the file system read, the \<open>preprocessSource\<close> plugin hook, the
  Babel parser, \<open>getGraphQLTag\<close>, lodash's \<open>camelCase\<close> and the md5 digest.
  Promises are modelled by their settled value: a rejection or a thrown
  exception is \<open>Inl\<close>, a fulfilled value is \<open>Inr\<close>. Every call to the reporter,
  to an action creator and to one of the effectful externals is recorded, in
  order, in a list of events.
\<close>

subsection \<open>Data\<close>

type_synonym js_error = string

text \<open>
  The Babel syntax tree, restricted to the node types the visitors dispatch on
  and the fields they read. \<open>JSXElement\<close> carries \<open>openingElement.name.name\<close>,
  \<open>JSXAttribute\<close> carries \<open>name.name\<close> (both are absent for member or
  namespaced names), \<open>TaggedTemplateExpression\<close> carries \<open>node.start\<close>,
  \<open>Identifier\<close> carries its name and the source of the import declaration its
  binding resolves to (what \<open>referencesImport\<close> consults), \<open>VariableDeclarator\<close>
  its \<open>id\<close> and its optional \<open>init\<close>, \<open>CallExpression\<close> its callee and arguments.
  Every other node type is an \<open>OtherNode\<close>; the root \<open>File\<close> node is one.
\<close>

datatype ast =
    JSXElement "string option" "ast list"
  | JSXAttribute "string option" "ast list"
  | TaggedTemplateExpression nat "ast list"
  | Identifier string "string option"
  | VariableDeclarator ast "ast option"
  | CallExpression ast "ast list"
  | ExportNamedDeclaration "ast list"
  | OtherNode "ast list"

text \<open>A GraphQL definition node as parsed: the fields \<open>name\<close> and \<open>loc.start\<close>.\<close>

record name_node =
  name_value :: string
  name_kind :: string

record definition_node =
  def_name :: "name_node option"
  def_loc_start :: nat

text \<open>What \<open>getGraphQLTag\<close> returns: \<open>{ ast, text, hash, isGlobal }\<close>; \<open>ast\<close> is
  absent when the template is not a query template. It parses the text of the
  template at every call, so the definition objects of one call are shared
  with no other call, and the properties assigned to them later are the
  properties of one entry of \<open>queries\<close> only.\<close>

record gql_tag =
  tag_definitions :: "definition_node list option"
  tag_text :: string
  tag_hash :: string
  tag_isGlobal :: bool

text \<open>
  A definition as it sits in \<open>queries\<close>: the parsed node (after
  \<open>generateQueryName\<close>), the properties \<open>extractStaticQuery\<close> assigns to it
  (absent when never assigned), and its entry in the \<open>documentLocations\<close> map.
\<close>

record query_def =
  node :: definition_node
  isStaticQuery :: "bool option"
  isHook :: "bool option"
  q_text :: "string option"
  q_hash :: "string option"
  documentLocation :: string

record document =
  doc_kind :: string
  definitions :: "query_def list"

datatype event =
    FsReadFile string
  | PreprocessSource string string
  | BabelParseToAst string string
  | ReportError string "js_error option"
  | ReportErrorObject js_error
  | ReportWarn string
  | QueryExtractionGraphQLError string
  | QueryExtractionBabelError string js_error
  | QueryExtractedBabelSuccess string

record externals =
  readFile :: "string \<Rightarrow> js_error + string"
  preprocessSource :: "string \<Rightarrow> string \<Rightarrow> js_error + string list option"
  babelParseToAst :: "string \<Rightarrow> string \<Rightarrow> js_error + ast"
  getGraphQLTag :: "ast \<Rightarrow> js_error + gql_tag"
  camelCase :: "string \<Rightarrow> string"
  md5 :: "string \<Rightarrow> string"

text \<open>The process-wide \<open>cache\<close> object and the effects observed so far.\<close>

record world =
  cache :: "string \<rightharpoonup> query_def list"
  trace :: "event list"

text \<open>The state of one run of the traversal passes: the \<open>queries\<close> array and the
  events emitted since \<open>findGraphQLTags\<close> was entered. A thrown exception carries
  the events emitted before it.\<close>

record trav =
  queries :: "query_def list"
  emitted :: "event list"

type_synonym 'a result = "(js_error \<times> event list) + 'a"

subsection \<open>Strings\<close>

text \<open>\<open>String.prototype.indexOf\<close>: the first index at which the pattern occurs, or -1.\<close>

fun indexOf_from :: "nat \<Rightarrow> string \<Rightarrow> string \<Rightarrow> int" where
  "indexOf_from i [] pat = (if pat = [] then int i else - 1)"
| "indexOf_from i (c # cs) pat =
     (if prefix pat (c # cs) then int i else indexOf_from (Suc i) cs pat)"

definition indexOf :: "string \<Rightarrow> string \<Rightarrow> int" where
  "indexOf str pat = indexOf_from 0 str pat"

text \<open>The decimal rendering of a number inside a template literal.\<close>

function string_of_nat :: "nat \<Rightarrow> string" where
  "string_of_nat n =
     (if n < 10 then [''0123456789'' ! n]
      else string_of_nat (n div 10) @ [''0123456789'' ! (n mod 10)])"
  by pat_completeness auto
termination
  by (relation "measure id") auto

declare string_of_nat.simps [simp del]

subsection \<open>Naming and diagnostics\<close>

text \<open>\<open>generateQueryName\<close>: add an autogenerated query name if the user defined none.\<close>

definition generateQueryName ::
  "externals \<Rightarrow> definition_node \<Rightarrow> string \<Rightarrow> string \<Rightarrow> definition_node" where
  "generateQueryName ext def hash file =
     (let generated = def\<lparr>def_name :=
            Some \<lparr>name_value = camelCase ext file @ hash, name_kind = ''Name''\<rparr>\<rparr>
      in case def_name def of
           None \<Rightarrow> generated
         | Some n \<Rightarrow> if name_value n = [] then generated else def)"

definition unknownQueryVariableMessage :: "string \<Rightarrow> string \<Rightarrow> string \<Rightarrow> string" where
  \<open>unknownQueryVariableMessage varName file usageFunction =
     ''\<newline>We were unable to find the declaration of variable "'' @ varName @
     ''", which you passed as the "query" prop into the '' @ usageFunction @
     '' declaration in "'' @ file @ ''".\<newline>\<newline>Perhaps the variable name has a typo?\<newline>\<newline>'' @
     ''Also note that we are currently unable to use queries defined in files other than the file where the '' @
     usageFunction @
     '' is defined. If you're attempting to import the query, please move it into "'' @ file @
     ''". If being able to import queries from another file is an important capability for you, we invite your help fixing it.\<newline>''\<close>

definition warnForUnknownQueryVariable :: "string \<Rightarrow> string \<Rightarrow> string \<Rightarrow> event" where
  "warnForUnknownQueryVariable varName file usageFunction =
     ReportWarn (unknownQueryVariableMessage varName file usageFunction)"

definition warnForGlobalTag :: "string \<Rightarrow> event" where
  \<open>warnForGlobalTag file = ReportWarn (
     ''Using the global `graphql` tag is deprecated, and will not be supported in v3.\<newline>'' @
     ''Import it instead like:  import { graphql } from 'gatsby' in file:\<newline>'' @ file)\<close>

subsection \<open>The preprocessor and parser adapter\<close>

text \<open>The \<open>for (const item of transpiled)\<close> loop of \<open>parseToAst\<close>: the first
  candidate that parses ends the loop; a candidate that throws is reported and
  the loop continues.\<close>

fun tryCandidates :: "externals \<Rightarrow> string \<Rightarrow> string list \<Rightarrow> ast option \<times> event list" where
  "tryCandidates ext filePath [] = (None, [])"
| "tryCandidates ext filePath (item # rest) =
     (case babelParseToAst ext item filePath of
        Inr tmp \<Rightarrow> (Some tmp, [BabelParseToAst item filePath])
      | Inl error \<Rightarrow>
          (case tryCandidates ext filePath rest of
             (ast, evs) \<Rightarrow>
               (ast, [BabelParseToAst item filePath, ReportErrorObject error,
                      QueryExtractionGraphQLError filePath] @ evs)))"

definition parseToAst ::
  "externals \<Rightarrow> string \<Rightarrow> string \<Rightarrow> (js_error + ast option) \<times> event list" where
  \<open>parseToAst ext filePath fileStr =
     (case preprocessSource ext filePath fileStr of
        Inl err \<Rightarrow> (Inl err, [PreprocessSource filePath fileStr])
      | Inr transpiled \<Rightarrow>
          (if transpiled \<noteq> None \<and> the transpiled \<noteq> [] then
             (case tryCandidates ext filePath (the transpiled) of
                (Some ast, evs) \<Rightarrow> (Inr (Some ast), PreprocessSource filePath fileStr # evs)
              | (None, evs) \<Rightarrow>
                  (Inr None, PreprocessSource filePath fileStr # evs @
                     [ReportError (''Failed to parse preprocessed file '' @ filePath) None,
                      QueryExtractionGraphQLError filePath]))
           else
             (case babelParseToAst ext fileStr filePath of
                Inr ast \<Rightarrow>
                  (Inr (Some ast),
                   [PreprocessSource filePath fileStr, BabelParseToAst fileStr filePath])
              | Inl error \<Rightarrow>
                  (Inr None,
                   [PreprocessSource filePath fileStr, BabelParseToAst fileStr filePath,
                    QueryExtractionBabelError filePath error,
                    ReportError (''There was a problem parsing "'' @ filePath @
                      ''"; any GraphQL fragments or queries in this file were not processed. \<newline>'' @
                      ''This may indicate a syntax error in the code, or it may be a file type '' @
                      ''that Gatsby does not know how to parse.'') None]))))\<close>

subsection \<open>Traversal\<close>

text \<open>
  \<open>traverse(ast, visitor)\<close> and \<open>path.traverse(visitor)\<close> of \<open>@babel/traverse\<close>
  enter every proper descendant of the given node depth first, children in
  source order (for a declarator the \<open>id\<close> before the \<open>init\<close>, for a call the
  callee before the arguments); no visitor of the source skips, stops or
  rewrites a subtree. \<open>descendants\<close> lists the nodes in the order entered.
\<close>

fun descendants :: "ast \<Rightarrow> ast list" where
  "descendants (JSXElement n cs) = concat (map (\<lambda>c. c # descendants c) cs)"
| "descendants (JSXAttribute n cs) = concat (map (\<lambda>c. c # descendants c) cs)"
| "descendants (TaggedTemplateExpression start cs) = concat (map (\<lambda>c. c # descendants c) cs)"
| "descendants (Identifier n src) = []"
| "descendants (VariableDeclarator i init) =
     (i # descendants i) @ (case init of None \<Rightarrow> [] | Some e \<Rightarrow> e # descendants e)"
| "descendants (CallExpression c args) =
     (c # descendants c) @ concat (map (\<lambda>a. a # descendants a) args)"
| "descendants (ExportNamedDeclaration cs) = concat (map (\<lambda>c. c # descendants c) cs)"
| "descendants (OtherNode cs) = concat (map (\<lambda>c. c # descendants c) cs)"

text \<open>Running a visitor over a list of nodes; an exception ends the run.\<close>

fun forEach :: "('a \<Rightarrow> 's \<Rightarrow> 's result) \<Rightarrow> 'a list \<Rightarrow> 's \<Rightarrow> 's result" where
  "forEach visit [] s = Inr s"
| "forEach visit (x # xs) s =
     (case visit x s of Inl e \<Rightarrow> Inl e | Inr s' \<Rightarrow> forEach visit xs s')"

definition traverse :: "(ast \<Rightarrow> 's \<Rightarrow> 's result) \<Rightarrow> ast \<Rightarrow> 's \<Rightarrow> 's result" where
  "traverse visitor root s = forEach visitor (descendants root) s"

subsection \<open>Locating and normalising the tagged templates\<close>

definition locationKey :: "nat \<Rightarrow> nat \<Rightarrow> string" where
  "locationKey templateStart defStart = string_of_nat templateStart @ ''-'' @ string_of_nat defStart"

text \<open>
  \<open>extractStaticQuery\<close> is only ever called by a \<open>TaggedTemplateExpression\<close>
  visitor; on any other node the model leaves the state alone.
\<close>

fun extractStaticQuery ::
  "externals \<Rightarrow> string \<Rightarrow> ast \<Rightarrow> bool \<Rightarrow> trav \<Rightarrow> trav result" where
  "extractStaticQuery ext file (TaggedTemplateExpression start cs) isHookArg s =
     (case getGraphQLTag ext (TaggedTemplateExpression start cs) of
        Inl err \<Rightarrow> Inl (err, emitted s)
      | Inr tag \<Rightarrow>
          (case tag_definitions tag of
             None \<Rightarrow> Inr s
           | Some gqlDefinitions \<Rightarrow>
               Inr \<lparr>queries = queries s @
                       map (\<lambda>def.
                             \<lparr>node = generateQueryName ext def (tag_hash tag) file,
                              isStaticQuery = Some True,
                              isHook = Some isHookArg,
                              q_text = Some (tag_text tag),
                              q_hash = Some (tag_hash tag),
                              documentLocation = locationKey start (def_loc_start def)\<rparr>)
                           gqlDefinitions,
                    emitted = emitted s @
                       (if tag_isGlobal tag then [warnForGlobalTag file] else [])\<rparr>))"
| "extractStaticQuery ext file other isHookArg s = Inr s"

fun idName :: "ast \<Rightarrow> string option" where
  "idName (Identifier n src) = Some n"
| "idName other = None"

fun isTaggedTemplateExpression :: "ast \<Rightarrow> bool" where
  "isTaggedTemplateExpression (TaggedTemplateExpression start cs) = True"
| "isTaggedTemplateExpression other = False"

text \<open>\<open>path.referencesImport(moduleSource)\<close>: the path is an identifier whose
  binding is an import from that module.\<close>

fun referencesImport :: "ast \<Rightarrow> string \<Rightarrow> bool" where
  "referencesImport (Identifier n src) moduleSource = (src = Some moduleSource)"
| "referencesImport other moduleSource = False"

text \<open>
  The search for the declaration of a variable passed as the query: the
  visitor of the inner \<open>traverse(ast, { VariableDeclarator })\<close>, with the flag
  \<open>found\<close> in the state. Reading \<open>init.type\<close> of a declarator without an
  initialiser throws a TypeError.
\<close>

definition typeErrorInitNull :: js_error where
  "typeErrorInitNull = ''TypeError: Cannot read property 'type' of null''"

fun foundTemplateVisitor ::
  "externals \<Rightarrow> string \<Rightarrow> bool \<Rightarrow> ast \<Rightarrow> bool \<times> trav \<Rightarrow> (bool \<times> trav) result" where
  "foundTemplateVisitor ext file isHookArg (TaggedTemplateExpression start cs) (found, s) =
     (case extractStaticQuery ext file (TaggedTemplateExpression start cs) isHookArg s of
        Inl e \<Rightarrow> Inl e
      | Inr s' \<Rightarrow> Inr (True, s'))"
| "foundTemplateVisitor ext file isHookArg other fs = Inr fs"

fun declaratorVisitor ::
  "externals \<Rightarrow> string \<Rightarrow> bool \<Rightarrow> string \<Rightarrow> ast \<Rightarrow> bool \<times> trav \<Rightarrow> (bool \<times> trav) result" where
  "declaratorVisitor ext file isHookArg varName (VariableDeclarator i init) (found, s) =
     (if idName i = Some varName then
        (case init of
           None \<Rightarrow> Inl (typeErrorInitNull, emitted s)
         | Some e \<Rightarrow>
             if isTaggedTemplateExpression e then
               traverse (foundTemplateVisitor ext file isHookArg)
                 (VariableDeclarator i init) (found, s)
             else Inr (found, s))
      else Inr (found, s))"
| "declaratorVisitor ext file isHookArg varName other fs = Inr fs"

definition findVariable ::
  "externals \<Rightarrow> string \<Rightarrow> ast \<Rightarrow> bool \<Rightarrow> string \<Rightarrow> string \<Rightarrow> trav \<Rightarrow> trav result" where
  "findVariable ext file root isHookArg usageFunction varName s =
     (case traverse (declaratorVisitor ext file isHookArg varName) root (False, s) of
        Inl e \<Rightarrow> Inl e
      | Inr (found, s') \<Rightarrow>
          if \<not> found then
            Inr (s'\<lparr>emitted := emitted s' @
                       [warnForUnknownQueryVariable varName file usageFunction]\<rparr>)
          else Inr s')"

text \<open>Pass 1: queries in \<open><StaticQuery />\<close> elements.\<close>

fun queryAttributeVisitor :: "externals \<Rightarrow> string \<Rightarrow> ast \<Rightarrow> ast \<Rightarrow> trav \<Rightarrow> trav result" where
  "queryAttributeVisitor ext file root (TaggedTemplateExpression start cs) s =
     extractStaticQuery ext file (TaggedTemplateExpression start cs) False s"
| "queryAttributeVisitor ext file root (Identifier n src) s =
     (if n \<noteq> ''graphql'' then findVariable ext file root False ''<StaticQuery>'' n s
      else Inr s)"
| "queryAttributeVisitor ext file root other s = Inr s"

fun jsxAttributeVisitor :: "externals \<Rightarrow> string \<Rightarrow> ast \<Rightarrow> ast \<Rightarrow> trav \<Rightarrow> trav result" where
  "jsxAttributeVisitor ext file root (JSXAttribute n cs) s =
     (if n \<noteq> Some ''query'' then Inr s
      else traverse (queryAttributeVisitor ext file root) (JSXAttribute n cs) s)"
| "jsxAttributeVisitor ext file root other s = Inr s"

fun jsxElementVisitor :: "externals \<Rightarrow> string \<Rightarrow> ast \<Rightarrow> ast \<Rightarrow> trav \<Rightarrow> trav result" where
  "jsxElementVisitor ext file root (JSXElement n cs) s =
     (if n \<noteq> Some ''StaticQuery'' then Inr s
      else traverse (jsxAttributeVisitor ext file root) (JSXElement n cs) s)"
| "jsxElementVisitor ext file root other s = Inr s"

text \<open>Pass 2: queries in \<open>useStaticQuery\<close> hooks.\<close>

fun hookArgumentVisitor :: "externals \<Rightarrow> string \<Rightarrow> ast \<Rightarrow> ast \<Rightarrow> trav \<Rightarrow> trav result" where
  "hookArgumentVisitor ext file root (TaggedTemplateExpression start cs) s =
     extractStaticQuery ext file (TaggedTemplateExpression start cs) True s"
| "hookArgumentVisitor ext file root (Identifier n src) s =
     (if n \<noteq> ''graphql'' \<and> n \<noteq> ''useStaticQuery''
      then findVariable ext file root True ''useStaticQuery'' n s
      else Inr s)"
| "hookArgumentVisitor ext file root other s = Inr s"

fun callExpressionVisitor :: "externals \<Rightarrow> string \<Rightarrow> ast \<Rightarrow> ast \<Rightarrow> trav \<Rightarrow> trav result" where
  "callExpressionVisitor ext file root (CallExpression callee args) s =
     (if idName callee \<noteq> Some ''useStaticQuery'' \<or> \<not> referencesImport callee ''gatsby''
      then Inr s
      else traverse (hookArgumentVisitor ext file root) (CallExpression callee args) s)"
| "callExpressionVisitor ext file root other s = Inr s"

text \<open>Pass 3: exported page queries. The definitions are pushed as parsed and
  named; none of \<open>isStaticQuery\<close>, \<open>isHook\<close>, \<open>text\<close>, \<open>hash\<close> is assigned.\<close>

fun pageQueryVisitor :: "externals \<Rightarrow> string \<Rightarrow> ast \<Rightarrow> trav \<Rightarrow> trav result" where
  "pageQueryVisitor ext file (TaggedTemplateExpression start cs) s =
     (case getGraphQLTag ext (TaggedTemplateExpression start cs) of
        Inl err \<Rightarrow> Inl (err, emitted s)
      | Inr tag \<Rightarrow>
          (case tag_definitions tag of
             None \<Rightarrow> Inr s
           | Some gqlDefinitions \<Rightarrow>
               Inr \<lparr>queries = queries s @
                       map (\<lambda>def.
                             \<lparr>node = generateQueryName ext def (tag_hash tag) file,
                              isStaticQuery = None,
                              isHook = None,
                              q_text = None,
                              q_hash = None,
                              documentLocation = locationKey start (def_loc_start def)\<rparr>)
                           gqlDefinitions,
                    emitted = emitted s @
                       (if tag_isGlobal tag then [warnForGlobalTag file] else [])\<rparr>))"
| "pageQueryVisitor ext file other s = Inr s"

fun exportVisitor :: "externals \<Rightarrow> string \<Rightarrow> ast \<Rightarrow> trav \<Rightarrow> trav result" where
  "exportVisitor ext file (ExportNamedDeclaration cs) s =
     traverse (pageQueryVisitor ext file) (ExportNamedDeclaration cs) s"
| "exportVisitor ext file other s = Inr s"

text \<open>The three passes in their fixed order, on the one \<open>queries\<close> array.\<close>

definition locateQueries :: "externals \<Rightarrow> string \<Rightarrow> ast \<Rightarrow> trav \<Rightarrow> trav result" where
  "locateQueries ext file root s =
     (case traverse (jsxElementVisitor ext file root) root s of
        Inl e \<Rightarrow> Inl e
      | Inr s1 \<Rightarrow>
          (case traverse (callExpressionVisitor ext file root) root s1 of
             Inl e \<Rightarrow> Inl e
           | Inr s2 \<Rightarrow> traverse (exportVisitor ext file) root s2))"

subsection \<open>Removing duplicates\<close>

text \<open>lodash's \<open>uniqBy(array, iteratee)\<close>, as documented: the elements in order,
  keeping an element only when the iteratee's value for it has not been seen
  before. The iteratee of the source is \<open>q => documentLocations.get(q)\<close>.\<close>

fun baseUniq :: "('a \<Rightarrow> 'k) \<Rightarrow> 'k list \<Rightarrow> 'a list \<Rightarrow> 'a list" where
  "baseUniq iteratee seen [] = []"
| "baseUniq iteratee seen (x # xs) =
     (if iteratee x \<in> set seen then baseUniq iteratee seen xs
      else x # baseUniq iteratee (seen @ [iteratee x]) xs)"

definition uniqBy :: "'a list \<Rightarrow> ('a \<Rightarrow> 'k) \<Rightarrow> 'a list" where
  "uniqBy array iteratee = baseUniq iteratee [] array"

definition dedupe :: "query_def list \<Rightarrow> query_def list" where
  "dedupe qs = uniqBy qs documentLocation"

definition findGraphQLTags ::
  "externals \<Rightarrow> string \<Rightarrow> string \<Rightarrow> (js_error + query_def list) \<times> event list" where
  "findGraphQLTags ext file text =
     (case parseToAst ext file text of
        (Inl err, evs) \<Rightarrow> (Inl err, evs)
      | (Inr None, evs) \<Rightarrow> (Inr [], evs)
      | (Inr (Some root), evs) \<Rightarrow>
          (case locateQueries ext file root \<lparr>queries = [], emitted = evs\<rparr> of
             Inl (err, evs') \<Rightarrow> (Inl err, evs')
           | Inr s \<Rightarrow> (Inr (dedupe (queries s)), emitted s)))"

subsection \<open>The file parser and its cache\<close>

definition emit :: "event list \<Rightarrow> world \<Rightarrow> world" where
  "emit evs w = w\<lparr>trace := trace w @ evs\<rparr>"

text \<open>\<open>cache[hash] || (cache[hash] = await findGraphQLTags(file, text))\<close>: an
  array, also an empty one, is truthy; the assignment happens only when the
  promise is fulfilled.\<close>

definition cachedTags ::
  "externals \<Rightarrow> string \<Rightarrow> string \<Rightarrow> string \<Rightarrow> world \<Rightarrow> (js_error + query_def list) \<times> world" where
  "cachedTags ext hash file text w =
     (case cache w hash of
        Some astDefinitions \<Rightarrow> (Inr astDefinitions, w)
      | None \<Rightarrow>
          (case findGraphQLTags ext file text of
             (Inl err, evs) \<Rightarrow> (Inl err, emit evs w)
           | (Inr astDefinitions, evs) \<Rightarrow>
               (Inr astDefinitions,
                emit evs (w\<lparr>cache := (cache w)(hash \<mapsto> astDefinitions)\<rparr>))))"

definition parseFile :: "externals \<Rightarrow> string \<Rightarrow> world \<Rightarrow> document option \<times> world" where
  "parseFile ext file w =
     (case readFile ext file of
        Inl err \<Rightarrow>
          (None,
           emit [FsReadFile file,
                 ReportError (''There was a problem reading the file: '' @ file) (Some err),
                 QueryExtractionGraphQLError file] w)
      | Inr text \<Rightarrow>
          (if indexOf text ''graphql'' = - 1 then (None, emit [FsReadFile file] w)
           else
             (let hash = md5 ext (file @ text) in
              case cachedTags ext hash file text (emit [FsReadFile file] w) of
                (Inr astDefinitions, w1) \<Rightarrow>
                  (if length astDefinitions > 0
                   then (Some \<lparr>doc_kind = ''Document'', definitions = astDefinitions\<rparr>,
                         emit [QueryExtractedBabelSuccess file] w1)
                   else (None, w1))
              | (Inl err, w1) \<Rightarrow>
                  (None,
                   emit [ReportError
                           (''There was a problem parsing the GraphQL query in file: '' @ file)
                           (Some err),
                         QueryExtractionGraphQLError file] w1))))"

text \<open>
  \<open>parseFiles\<close>: every file is parsed and the non-null documents are collected
  in the \<open>documents\<close> map. The calls are taken in list order; they share nothing
  but the cache, which each call reads and writes at its own key.
\<close>

fun parseFilesInto ::
  "externals \<Rightarrow> string list \<Rightarrow> (string \<rightharpoonup> document) \<Rightarrow> world \<Rightarrow> (string \<rightharpoonup> document) \<times> world" where
  "parseFilesInto ext [] documents w = (documents, w)"
| "parseFilesInto ext (file # files) documents w =
     (case parseFile ext file w of
        (None, w') \<Rightarrow> parseFilesInto ext files documents w'
      | (Some doc, w') \<Rightarrow> parseFilesInto ext files (documents(file \<mapsto> doc)) w')"


section \<open>Properties\<close>

subsection \<open>Auxiliary notions\<close>

text \<open>A visitor preserves an invariant: from a state satisfying \<open>I\<close> it either
  returns a state satisfying \<open>I\<close> or throws an exception satisfying \<open>E\<close>.\<close>

definition preserves ::
  "('s \<Rightarrow> bool) \<Rightarrow> (js_error \<times> event list \<Rightarrow> bool) \<Rightarrow> ('s \<Rightarrow> 's result) \<Rightarrow> bool" where
  "preserves I E f = (\<forall>s. I s \<longrightarrow> (case f s of Inl e \<Rightarrow> E e | Inr s' \<Rightarrow> I s'))"

text \<open>What the candidate loop emits for one candidate that fails to parse.\<close>

definition failureReport :: "externals \<Rightarrow> string \<Rightarrow> string \<Rightarrow> event list" where
  "failureReport ext filePath item =
     (case babelParseToAst ext item filePath of
        Inl error \<Rightarrow> [BabelParseToAst item filePath, ReportErrorObject error,
                      QueryExtractionGraphQLError filePath]
      | Inr tmp \<Rightarrow> [])"

fun isSuccess :: "event \<Rightarrow> bool" where
  "isSuccess (QueryExtractedBabelSuccess file) = True"
| "isSuccess other = False"

fun isExtractionCall :: "event \<Rightarrow> bool" where
  "isExtractionCall (PreprocessSource file contents) = True"
| "isExtractionCall (BabelParseToAst contents file) = True"
| "isExtractionCall other = False"

text \<open>The events a call appended to the trace.\<close>

definition newEvents :: "world \<Rightarrow> world \<Rightarrow> event list" where
  "newEvents w w' = drop (length (trace w)) (trace w')"

subsection \<open>Concrete files\<close>

text \<open>
  A page component \<open>src/pages/index.js\<close> whose source is
  \<^verbatim>\<open>export const query = graphql`{ site { id } }`\<close>: the tag is the global one, the
  template starts at offset 21 and holds one anonymous query at offset 0 of
  its text. The externals parse every source to the given tree, preprocess
  nothing and give every template that one definition.
\<close>

definition demoTag :: "ast \<Rightarrow> js_error + gql_tag" where
  "demoTag t = Inr \<lparr>tag_definitions = Some [\<lparr>def_name = None, def_loc_start = 0\<rparr>],
                    tag_text = ''{ site { id } }'', tag_hash = ''2417117884'',
                    tag_isGlobal = True\<rparr>"

definition demoExt :: "string \<Rightarrow> ast \<Rightarrow> externals" where
  "demoExt text root =
     \<lparr>readFile = (\<lambda>file. Inr text),
      preprocessSource = (\<lambda>file contents. Inr None),
      babelParseToAst = (\<lambda>contents file. Inr root),
      getGraphQLTag = demoTag,
      camelCase = (\<lambda>file. ''srcPagesIndexJs''),
      md5 = (\<lambda>s. s)\<rparr>"

definition emptyWorld :: world where
  "emptyWorld = \<lparr>cache = Map.empty, trace = []\<rparr>"

definition pageSource :: string where
  "pageSource = ''export const query = graphql`{ site { id } }`''"

definition pageAst :: ast where
  "pageAst = OtherNode [ExportNamedDeclaration [OtherNode [
     VariableDeclarator (Identifier ''query'' None)
       (Some (TaggedTemplateExpression 21 [Identifier ''graphql'' None, OtherNode []]))]]]"

definition plainSource :: string where
  "plainSource = ''export const x = 1''"

text \<open>The same file when a preprocessor plugin offers two candidates, the
  first of which does not parse.\<close>

definition candidateExt :: externals where
  "candidateExt = (demoExt pageSource pageAst)
     \<lparr>preprocessSource := (\<lambda>file contents. Inr (Some [''<script>'', pageSource])),
      babelParseToAst := (\<lambda>contents file.
         if contents = pageSource then Inr pageAst
         else Inl ''SyntaxError: Unexpected token (1:0)'')\<rparr>"





text \<open>A page component whose query does not parse: \<open>getGraphQLTag\<close> throws.\<close>

definition brokenSource :: string where
  "brokenSource = ''export const query = graphql`{ site {`''"

definition brokenExt :: externals where
  "brokenExt = (demoExt brokenSource pageAst)
     \<lparr>getGraphQLTag := (\<lambda>t. Inl ''GraphQLError: Syntax Error: Expected Name, found <EOF>'')\<rparr>"




text \<open>
  A file in which the variable passed as the query is declared without an
  initialiser, and which also exports a page query (template at offset 71).
\<close>

definition unboundSource :: string where
  "unboundSource = ''let Q; const A = () => <StaticQuery query={Q} />; export const query = graphql`{ site { id } }`''"

definition unboundAst :: ast where
  "unboundAst = OtherNode [
     OtherNode [VariableDeclarator (Identifier ''Q'' None) None],
     OtherNode [VariableDeclarator (Identifier ''A'' None)
       (Some (OtherNode [JSXElement (Some ''StaticQuery'')
          [OtherNode [OtherNode [],
             JSXAttribute (Some ''query'') [OtherNode [], OtherNode [Identifier ''Q'' None]]]]]))],
     ExportNamedDeclaration [OtherNode [VariableDeclarator (Identifier ''query'' None)
       (Some (TaggedTemplateExpression 71 [Identifier ''graphql'' None, OtherNode []]))]]]"



text \<open>A file that mentions the tag identifier in a comment only.\<close>

definition commentSource :: string where
  "commentSource = ''// no graphql here''"

text \<open>
  Two edits of the page component, each changing one character: the first
  removes the tag identifier, the second keeps it. Then the process after
  the page component was parsed once, and after the second edit was parsed
  next.
\<close>

definition typoSource :: string where
  "typoSource = ''export const query = graphqk`{ site { id } }`''"

definition editedSource :: string where
  "editedSource = ''export const query = graphql`{ site { ip } }`''"

definition pageWorld :: world where
  "pageWorld = snd (parseFile (demoExt pageSource pageAst) ''src/pages/index.js'' emptyWorld)"

definition editedWorld :: world where
  "editedWorld = snd (parseFile (demoExt editedSource pageAst) ''src/pages/index.js'' pageWorld)"

subsection \<open>Notions used in the statements\<close>

text \<open>What \<open>parseFile\<close> returns for a list of definitions, and the notification
  that goes with it.\<close>

definition documentOf :: "query_def list \<Rightarrow> document option" where
  "documentOf defs =
     (if defs = [] then None else Some \<lparr>doc_kind = ''Document'', definitions = defs\<rparr>)"

definition successOf :: "string \<Rightarrow> query_def list \<Rightarrow> event list" where
  "successOf file defs = (if defs = [] then [] else [QueryExtractedBabelSuccess file])"






















text \<open>A node declares the variable with a tagged template as initialiser; a
  node declares the variable with no initialiser.\<close>

fun declaresTemplate :: "string \<Rightarrow> ast \<Rightarrow> bool" where
  "declaresTemplate varName (VariableDeclarator i (Some e)) =
     (idName i = Some varName \<and> isTaggedTemplateExpression e)"
| "declaresTemplate varName other = False"

fun declaresWithoutInit :: "string \<Rightarrow> ast \<Rightarrow> bool" where
  "declaresWithoutInit varName (VariableDeclarator i None) = (idName i = Some varName)"
| "declaresWithoutInit varName other = False"

subsection \<open>Invariants of the traversal\<close>

lemma preservesI:
  "(\<And>s. I s \<Longrightarrow> (case f s of Inl e \<Rightarrow> E e | Inr s' \<Rightarrow> I s')) \<Longrightarrow> preserves I E f"
  by (simp add: preserves_def)

lemma preservesD_Inr: "preserves I E f \<Longrightarrow> I s \<Longrightarrow> f s = Inr s' \<Longrightarrow> I s'"
  unfolding preserves_def by (drule spec [of _ s]) simp

lemma preservesD_Inl: "preserves I E f \<Longrightarrow> I s \<Longrightarrow> f s = Inl e \<Longrightarrow> E e"
  unfolding preserves_def by (drule spec [of _ s]) simp

lemma preservesD:
  "preserves I E f \<Longrightarrow> I s \<Longrightarrow> (case f s of Inl e \<Rightarrow> E e | Inr s' \<Rightarrow> I s')"
  by (simp add: preserves_def)

lemma preserves_Inr [simp]: "preserves I E Inr"
  by (simp add: preserves_def)

lemma preserves_forEach:
  "(\<And>x. x \<in> set xs \<Longrightarrow> preserves I E (visit x)) \<Longrightarrow> preserves I E (forEach visit xs)"
proof (induction xs)
  case Nil
  have "forEach visit [] = Inr" by (rule ext) simp
  then show ?case by simp
next
  case (Cons x xs)
  have px: "preserves I E (visit x)" using Cons.prems by simp
  have pxs: "preserves I E (forEach visit xs)" using Cons by simp
  show ?case
  proof (rule preservesI)
    fix s assume "I s"
    show "case forEach visit (x # xs) s of Inl e \<Rightarrow> E e | Inr s' \<Rightarrow> I s'"
    proof (cases "visit x s")
      case (Inl e)
      with px \<open>I s\<close> show ?thesis by (auto dest: preservesD_Inl)
    next
      case (Inr s1)
      with px \<open>I s\<close> have "I s1" by (auto dest: preservesD_Inr)
      with pxs Inr show ?thesis by (simp add: preserves_def)
    qed
  qed
qed

lemma preserves_traverse:
  "(\<And>x. preserves I E (visitor x)) \<Longrightarrow> preserves I E (traverse visitor root)"
  unfolding traverse_def[abs_def] by (rule preserves_forEach)

text \<open>Lifting an invariant on the traversal state to the state with the flag.\<close>

lemma preserves_foundTemplateVisitor:
  assumes "\<And>t h. preserves I E (extractStaticQuery ext file t h)"
  shows "preserves (\<lambda>fs. I (snd fs)) E (foundTemplateVisitor ext file h x)"
proof (rule preservesI)
  fix fs :: "bool \<times> trav" assume I: "I (snd fs)"
  obtain found s where fs: "fs = (found, s)" by (cases fs)
  show "case foundTemplateVisitor ext file h x fs of Inl e \<Rightarrow> E e | Inr s' \<Rightarrow> I (snd s')"
  proof (cases x)
    case (TaggedTemplateExpression start cs)
    show ?thesis
    proof (cases "extractStaticQuery ext file x h s")
      case (Inl e)
      with assms[of x h] I fs have "E e" by (auto dest: preservesD_Inl)
      with Inl TaggedTemplateExpression fs show ?thesis by simp
    next
      case (Inr s')
      with assms[of x h] I fs have "I s'" by (auto dest: preservesD_Inr)
      with Inr TaggedTemplateExpression fs show ?thesis by simp
    qed
  qed (use I fs in simp_all)
qed

lemma preserves_declaratorVisitor:
  assumes "\<And>t h. preserves I E (extractStaticQuery ext file t h)"
    and "\<And>s. I s \<Longrightarrow> E (typeErrorInitNull, emitted s)"
  shows "preserves (\<lambda>fs. I (snd fs)) E (declaratorVisitor ext file h varName x)"
proof (rule preservesI)
  fix fs :: "bool \<times> trav" assume I: "I (snd fs)"
  obtain found s where fs: "fs = (found, s)" by (cases fs)
  have tr: "preserves (\<lambda>fs. I (snd fs)) E (traverse (foundTemplateVisitor ext file h) x)"
    by (rule preserves_traverse) (rule preserves_foundTemplateVisitor, rule assms(1))
  show "case declaratorVisitor ext file h varName x fs of Inl e \<Rightarrow> E e | Inr s' \<Rightarrow> I (snd s')"
  proof (cases x)
    case (VariableDeclarator i init)
    show ?thesis
    proof (cases "idName i = Some varName")
      case False
      with VariableDeclarator I fs show ?thesis by simp
    next
      case True
      show ?thesis
      proof (cases init)
        case None
        with True VariableDeclarator I fs assms(2)[of s] show ?thesis by simp
      next
        case (Some e)
        show ?thesis
        proof (cases "isTaggedTemplateExpression e")
          case False
          with Some True VariableDeclarator I fs show ?thesis by simp
        next
          case T: True
          from preservesD [OF tr, of fs] I
          have "case traverse (foundTemplateVisitor ext file h) x fs of
                  Inl e \<Rightarrow> E e | Inr s' \<Rightarrow> I (snd s')"
            by simp
          with T Some True VariableDeclarator fs show ?thesis by simp
        qed
      qed
    qed
  qed (use I fs in simp_all)
qed

lemma preserves_findVariable:
  assumes "\<And>t h. preserves I E (extractStaticQuery ext file t h)"
    and "\<And>s. I s \<Longrightarrow> E (typeErrorInitNull, emitted s)"
    and "\<And>s m. I s \<Longrightarrow> I (s\<lparr>emitted := emitted s @ [ReportWarn m]\<rparr>)"
  shows "preserves I E (findVariable ext file root h usage varName)"
proof (rule preservesI)
  fix s assume I: "I s"
  have tr: "preserves (\<lambda>fs. I (snd fs)) E (traverse (declaratorVisitor ext file h varName) root)"
    by (rule preserves_traverse) (rule preserves_declaratorVisitor, rule assms(1), rule assms(2))
  show "case findVariable ext file root h usage varName s of Inl e \<Rightarrow> E e | Inr s' \<Rightarrow> I s'"
  proof (cases "traverse (declaratorVisitor ext file h varName) root (False, s)")
    case (Inl e)
    from preservesD_Inl [OF tr _ Inl] I have "E e" by simp
    with Inl show ?thesis by (simp add: findVariable_def)
  next
    case (Inr fs)
    from preservesD_Inr [OF tr _ Inr] I have "I (snd fs)" by simp
    with Inr assms(3)[of "snd fs"] show ?thesis
      by (cases fs) (simp add: findVariable_def warnForUnknownQueryVariable_def)
  qed
qed

lemma preserves_queryAttributeVisitor:
  assumes "\<And>t h. preserves I E (extractStaticQuery ext file t h)"
    and "\<And>s. I s \<Longrightarrow> E (typeErrorInitNull, emitted s)"
    and "\<And>s m. I s \<Longrightarrow> I (s\<lparr>emitted := emitted s @ [ReportWarn m]\<rparr>)"
  shows "preserves I E (queryAttributeVisitor ext file root x)"
proof (cases x)
  case (TaggedTemplateExpression start cs)
  have "queryAttributeVisitor ext file root x = extractStaticQuery ext file x False"
    by (rule ext) (simp add: TaggedTemplateExpression)
  then show ?thesis by (simp add: assms(1))
next
  case (Identifier n src)
  have "queryAttributeVisitor ext file root x =
          (if n \<noteq> ''graphql'' then findVariable ext file root False ''<StaticQuery>'' n else Inr)"
    by (rule ext) (simp add: Identifier)
  then show ?thesis by (simp add: preserves_findVariable [OF assms])
qed (simp_all add: preserves_def)

lemma preserves_hookArgumentVisitor:
  assumes "\<And>t h. preserves I E (extractStaticQuery ext file t h)"
    and "\<And>s. I s \<Longrightarrow> E (typeErrorInitNull, emitted s)"
    and "\<And>s m. I s \<Longrightarrow> I (s\<lparr>emitted := emitted s @ [ReportWarn m]\<rparr>)"
  shows "preserves I E (hookArgumentVisitor ext file root x)"
proof (cases x)
  case (TaggedTemplateExpression start cs)
  have "hookArgumentVisitor ext file root x = extractStaticQuery ext file x True"
    by (rule ext) (simp add: TaggedTemplateExpression)
  then show ?thesis by (simp add: assms(1))
next
  case (Identifier n src)
  have "hookArgumentVisitor ext file root x =
          (if n \<noteq> ''graphql'' \<and> n \<noteq> ''useStaticQuery''
           then findVariable ext file root True ''useStaticQuery'' n else Inr)"
    by (rule ext) (simp add: Identifier)
  then show ?thesis by (simp add: preserves_findVariable [OF assms])
qed (simp_all add: preserves_def)

lemma preserves_jsxAttributeVisitor:
  assumes "\<And>x. preserves I E (queryAttributeVisitor ext file root x)"
  shows "preserves I E (jsxAttributeVisitor ext file root x)"
proof (cases x)
  case (JSXAttribute n cs)
  have "jsxAttributeVisitor ext file root x =
          (if n \<noteq> Some ''query'' then Inr else traverse (queryAttributeVisitor ext file root) x)"
    by (rule ext) (simp add: JSXAttribute)
  then show ?thesis by (simp add: preserves_traverse assms)
qed (simp_all add: preserves_def)

lemma preserves_jsxElementVisitor:
  assumes "\<And>x. preserves I E (queryAttributeVisitor ext file root x)"
  shows "preserves I E (jsxElementVisitor ext file root x)"
proof (cases x)
  case (JSXElement n cs)
  have "jsxElementVisitor ext file root x =
          (if n \<noteq> Some ''StaticQuery'' then Inr else traverse (jsxAttributeVisitor ext file root) x)"
    by (rule ext) (simp add: JSXElement)
  then show ?thesis by (simp add: preserves_traverse preserves_jsxAttributeVisitor assms)
qed (simp_all add: preserves_def)

lemma preserves_callExpressionVisitor:
  assumes "\<And>x. preserves I E (hookArgumentVisitor ext file root x)"
  shows "preserves I E (callExpressionVisitor ext file root x)"
proof (cases x)
  case (CallExpression callee args)
  have "callExpressionVisitor ext file root x =
          (if idName callee \<noteq> Some ''useStaticQuery'' \<or> \<not> referencesImport callee ''gatsby''
           then Inr else traverse (hookArgumentVisitor ext file root) x)"
    by (rule ext) (simp add: CallExpression)
  then show ?thesis by (simp add: preserves_traverse assms)
qed (simp_all add: preserves_def)

lemma preserves_exportVisitor:
  assumes "\<And>t. preserves I E (pageQueryVisitor ext file t)"
  shows "preserves I E (exportVisitor ext file x)"
proof (cases x)
  case (ExportNamedDeclaration cs)
  have "exportVisitor ext file x = traverse (pageQueryVisitor ext file) x"
    by (rule ext) (simp add: ExportNamedDeclaration)
  then show ?thesis by (simp add: preserves_traverse assms)
qed (simp_all add: preserves_def)

lemma preserves_bind:
  assumes "preserves I E f" and "preserves I E g"
  shows "preserves I E (\<lambda>s. case f s of Inl e \<Rightarrow> Inl e | Inr s' \<Rightarrow> g s')"
proof (rule preservesI)
  fix s assume I: "I s"
  show "case (case f s of Inl e \<Rightarrow> Inl e | Inr s' \<Rightarrow> g s') of Inl e \<Rightarrow> E e | Inr s' \<Rightarrow> I s'"
  proof (cases "f s")
    case (Inl e)
    with preservesD_Inl [OF assms(1) I Inl] show ?thesis by simp
  next
    case (Inr s1)
    from preservesD_Inr [OF assms(1) I Inr] have "I s1" .
    from preservesD [OF assms(2) this] Inr show ?thesis by simp
  qed
qed

lemma preserves_locateQueries:
  assumes static: "\<And>t h. preserves I E (extractStaticQuery ext file t h)"
    and page: "\<And>t. preserves I E (pageQueryVisitor ext file t)"
    and typeError: "\<And>s. I s \<Longrightarrow> E (typeErrorInitNull, emitted s)"
    and warn: "\<And>s m. I s \<Longrightarrow> I (s\<lparr>emitted := emitted s @ [ReportWarn m]\<rparr>)"
  shows "preserves I E (locateQueries ext file root)"
proof -
  have p1: "preserves I E (traverse (jsxElementVisitor ext file root) root)"
    by (intro preserves_traverse preserves_jsxElementVisitor preserves_queryAttributeVisitor
          static typeError warn)
  have p2: "preserves I E (traverse (callExpressionVisitor ext file root) root)"
    by (intro preserves_traverse preserves_callExpressionVisitor preserves_hookArgumentVisitor
          static typeError warn)
  have p3: "preserves I E (traverse (exportVisitor ext file) root)"
    by (intro preserves_traverse preserves_exportVisitor page)
  have "locateQueries ext file root =
          (\<lambda>s. case traverse (jsxElementVisitor ext file root) root s of
                 Inl e \<Rightarrow> Inl e
               | Inr s1 \<Rightarrow>
                   (case traverse (callExpressionVisitor ext file root) root s1 of
                      Inl e \<Rightarrow> Inl e
                    | Inr s2 \<Rightarrow> traverse (exportVisitor ext file) root s2))"
    by (rule ext) (simp add: locateQueries_def)
  then show ?thesis
    by (simp add: preserves_bind [OF p1 preserves_bind [OF p2 p3]])
qed

subsection \<open>Removing duplicates\<close>

lemma baseUniq_keys: "f ` set (baseUniq f seen xs) = f ` set xs - set seen"
proof (induction xs arbitrary: seen)
  case Nil
  show ?case by simp
next
  case (Cons x xs)
  show ?case
  proof (cases "f x \<in> set seen")
    case True
    then show ?thesis using Cons [of seen] by auto
  next
    case False
    then show ?thesis using Cons [of "seen @ [f x]"] by auto
  qed
qed

lemma baseUniq_distinct: "distinct (map f (baseUniq f seen xs))"
proof (induction xs arbitrary: seen)
  case Nil
  show ?case by simp
next
  case (Cons x xs)
  have "f x \<notin> f ` set (baseUniq f (seen @ [f x]) xs)"
    by (simp add: baseUniq_keys)
  with Cons show ?case by simp
qed

lemma baseUniq_fixed:
  "distinct (map f ys) \<Longrightarrow> set (map f ys) \<inter> set seen = {} \<Longrightarrow> baseUniq f seen ys = ys"
  by (induction ys arbitrary: seen) auto

lemma baseUniq_find:
  "find (\<lambda>q. f q = k) (baseUniq f seen xs) =
     (if k \<in> set seen then None else find (\<lambda>q. f q = k) xs)"
  by (induction xs arbitrary: seen) auto

lemma baseUniq_subseq: "subseq (baseUniq f seen xs) xs"
  by (induction xs arbitrary: seen) auto


text \<open>
  C8: \<open>dedupe\<close> is stable and idempotent. For every location key the first
  fragment of the input with that key (the input being the concatenation of
  what the component, hook and page passes pushed, in that order) is the one
  found in the output, the output is a subsequence of the input, its location
  keys are pairwise distinct, and applying \<open>dedupe\<close> again changes nothing.
\<close>

theorem dedupe_stable_idempotent:
  "(\<forall>k. find (\<lambda>q. documentLocation q = k) (dedupe qs) = find (\<lambda>q. documentLocation q = k) qs) \<and>
   subseq (dedupe qs) qs \<and>
   distinct (map documentLocation (dedupe qs)) \<and>
   dedupe (dedupe qs) = dedupe qs"
  unfolding dedupe_def uniqBy_def
  by (simp add: baseUniq_find baseUniq_subseq baseUniq_fixed baseUniq_distinct)

subsection \<open>The fast path\<close>

lemma indexOf_from_nonneg: "indexOf_from i s pat = - 1 \<or> 0 \<le> indexOf_from i s pat"
  by (induction s arbitrary: i) auto

lemma indexOf_from_sublist: "indexOf_from i s pat = - 1 \<longleftrightarrow> \<not> sublist pat s"
  by (induction s arbitrary: i) (auto simp: sublist_Cons_right)

lemma indexOf_sublist: "indexOf s pat = - 1 \<longleftrightarrow> \<not> sublist pat s"
  by (simp add: indexOf_def indexOf_from_sublist)

text \<open>
  C4: when the text of the file has no occurrence of the substring
  \<open>graphql\<close>, \<open>parseFile\<close> returns null at once: the only effect is the read of
  the file; the preprocessor and the parser are not called, no traversal runs,
  and the cache is untouched.
\<close>

theorem parseFile_without_tag:
  assumes "readFile ext file = Inr text" and "\<not> sublist ''graphql'' text"
  shows "parseFile ext file w = (None, w\<lparr>trace := trace w @ [FsReadFile file]\<rparr>)"
  using assms by (simp add: parseFile_def indexOf_sublist emit_def)

theorem parseFile_without_tag_witness:
  "readFile (demoExt plainSource (OtherNode [])) ''src/utils/x.js'' = Inr plainSource \<and>
   \<not> sublist ''graphql'' plainSource \<and>
   parseFile (demoExt plainSource (OtherNode [])) ''src/utils/x.js'' emptyWorld =
     (None, emptyWorld\<lparr>trace := trace emptyWorld @ [FsReadFile ''src/utils/x.js'']\<rparr>)"
proof -
  have h1: "readFile (demoExt plainSource (OtherNode [])) ''src/utils/x.js'' = Inr plainSource"
    by (simp add: demoExt_def)
  have h2: "\<not> sublist ''graphql'' plainSource"
    by (simp add: plainSource_def sublist_Cons_right)
  from h1 h2 parseFile_without_tag [OF h1 h2, of emptyWorld] show ?thesis by simp
qed

subsection \<open>The preprocessed candidates\<close>

lemma tryCandidates_all_fail:
  "\<forall>c \<in> set cands. isl (babelParseToAst ext c filePath) \<Longrightarrow>
   tryCandidates ext filePath cands = (None, concat (map (failureReport ext filePath) cands))"
  by (induction cands) (auto simp: failureReport_def split: sum.splits)

lemma tryCandidates_first:
  "\<forall>c \<in> set bad. isl (babelParseToAst ext c filePath) \<Longrightarrow>
   babelParseToAst ext good filePath = Inr tmp \<Longrightarrow>
   tryCandidates ext filePath (bad @ good # rest) =
     (Some tmp, concat (map (failureReport ext filePath) bad) @ [BabelParseToAst good filePath])"
  by (induction bad) (auto simp: failureReport_def split: sum.splits)

subsection \<open>The outcomes of \<open>parseFile\<close>\<close>

lemma parseFile_read_error:
  "readFile ext file = Inl err \<Longrightarrow>
   parseFile ext file w =
     (None, w\<lparr>trace := trace w @
        [FsReadFile file,
         ReportError (''There was a problem reading the file: '' @ file) (Some err),
         QueryExtractionGraphQLError file]\<rparr>)"
  by (simp add: parseFile_def emit_def)

lemma parseFile_no_tag:
  "readFile ext file = Inr contents \<Longrightarrow> indexOf contents ''graphql'' = - 1 \<Longrightarrow>
   parseFile ext file w = (None, w\<lparr>trace := trace w @ [FsReadFile file]\<rparr>)"
  by (simp add: parseFile_def emit_def)

lemma parseFile_hit:
  "readFile ext file = Inr contents \<Longrightarrow> indexOf contents ''graphql'' \<noteq> - 1 \<Longrightarrow>
   cache w (md5 ext (file @ contents)) = Some defs \<Longrightarrow>
   parseFile ext file w =
     (documentOf defs, w\<lparr>trace := trace w @ FsReadFile file # successOf file defs\<rparr>)"
  by (simp add: parseFile_def cachedTags_def emit_def documentOf_def successOf_def)

lemma parseFile_miss:
  "readFile ext file = Inr contents \<Longrightarrow> indexOf contents ''graphql'' \<noteq> - 1 \<Longrightarrow>
   cache w (md5 ext (file @ contents)) = None \<Longrightarrow>
   findGraphQLTags ext file contents = (Inr defs, evs) \<Longrightarrow>
   parseFile ext file w =
     (documentOf defs,
      w\<lparr>cache := (cache w)(md5 ext (file @ contents) \<mapsto> defs),
        trace := trace w @ FsReadFile file # evs @ successOf file defs\<rparr>)"
  by (simp add: parseFile_def cachedTags_def emit_def documentOf_def successOf_def)

lemma parseFile_miss_error:
  "readFile ext file = Inr contents \<Longrightarrow> indexOf contents ''graphql'' \<noteq> - 1 \<Longrightarrow>
   cache w (md5 ext (file @ contents)) = None \<Longrightarrow>
   findGraphQLTags ext file contents = (Inl err, evs) \<Longrightarrow>
   parseFile ext file w =
     (None,
      w\<lparr>trace := trace w @ FsReadFile file # evs @
         [ReportError (''There was a problem parsing the GraphQL query in file: '' @ file)
            (Some err),
          QueryExtractionGraphQLError file]\<rparr>)"
  by (simp add: parseFile_def cachedTags_def emit_def)

lemma emit_Nil: "emit [] w = w"
  by (simp add: emit_def)

lemma parseFile_cachedTags:
  assumes "readFile ext file = Inr contents" and "indexOf contents ''graphql'' \<noteq> - 1"
    and "cachedTags ext (md5 ext (file @ contents)) file contents (emit [FsReadFile file] w) =
           (Inr defs, w1)"
  shows "parseFile ext file w = (documentOf defs, emit (successOf file defs) w1)"
  using assms by (simp add: parseFile_def documentOf_def successOf_def emit_Nil)

lemma parseFile_cachedTags_error:
  assumes "readFile ext file = Inr contents" and "indexOf contents ''graphql'' \<noteq> - 1"
    and "cachedTags ext (md5 ext (file @ contents)) file contents (emit [FsReadFile file] w) =
           (Inl err, w1)"
  shows "fst (parseFile ext file w) = None"
  using assms by (simp add: parseFile_def)

lemma newEvents_append: "trace w' = trace w @ evs \<Longrightarrow> newEvents w w' = evs"
  by (simp add: newEvents_def)

lemma cachedTags_hit:
  "cache w hash = Some defs \<Longrightarrow> cachedTags ext hash file contents w = (Inr defs, w)"
  by (simp add: cachedTags_def)

lemma cachedTags_miss:
  "cache w hash = None \<Longrightarrow> findGraphQLTags ext file contents = (Inr defs, evs) \<Longrightarrow>
   cachedTags ext hash file contents w =
     (Inr defs, emit evs (w\<lparr>cache := (cache w)(hash \<mapsto> defs)\<rparr>))"
  by (simp add: cachedTags_def)

subsection \<open>The success notification\<close>

lemma tryCandidates_noSuccess:
  "tryCandidates ext filePath cands = (r, evs) \<Longrightarrow> \<not> list_ex isSuccess evs"
  by (induction cands arbitrary: r evs) (auto split: sum.splits prod.splits)

lemma parseToAst_noSuccess:
  assumes "parseToAst ext filePath fileStr = (r, evs)"
  shows "\<not> list_ex isSuccess evs"
proof (cases "preprocessSource ext filePath fileStr")
  case (Inl err)
  with assms show ?thesis by (auto simp: parseToAst_def)
next
  case (Inr transpiled)
  show ?thesis
  proof (cases "transpiled \<noteq> None \<and> the transpiled \<noteq> []")
    case True
    obtain a evs' where t: "tryCandidates ext filePath (the transpiled) = (a, evs')"
      by (cases "tryCandidates ext filePath (the transpiled)")
    from tryCandidates_noSuccess [OF t] have "\<not> list_ex isSuccess evs'" .
    with assms Inr True t show ?thesis
      by (cases a) (auto simp: parseToAst_def)
  next
    case False
    with assms Inr show ?thesis
      by (cases "babelParseToAst ext fileStr filePath") (auto simp: parseToAst_def)
  qed
qed

lemma extractStaticQuery_noSuccess:
  "preserves (\<lambda>s. \<not> list_ex isSuccess (emitted s)) (\<lambda>e. \<not> list_ex isSuccess (snd e))
     (extractStaticQuery ext file t h)"
  by (cases t)
     (auto simp: preserves_def warnForGlobalTag_def split: sum.splits option.splits)

lemma pageQueryVisitor_noSuccess:
  "preserves (\<lambda>s. \<not> list_ex isSuccess (emitted s)) (\<lambda>e. \<not> list_ex isSuccess (snd e))
     (pageQueryVisitor ext file t)"
  by (cases t)
     (auto simp: preserves_def warnForGlobalTag_def split: sum.splits option.splits)

lemma locateQueries_noSuccess:
  "preserves (\<lambda>s. \<not> list_ex isSuccess (emitted s)) (\<lambda>e. \<not> list_ex isSuccess (snd e))
     (locateQueries ext file root)"
  by (rule preserves_locateQueries)
     (simp_all add: extractStaticQuery_noSuccess pageQueryVisitor_noSuccess)

lemma findGraphQLTags_noSuccess:
  assumes "findGraphQLTags ext file text = (r, evs)"
  shows "\<not> list_ex isSuccess evs"
proof -
  obtain a evs0 where p: "parseToAst ext file text = (a, evs0)"
    by (cases "parseToAst ext file text")
  from parseToAst_noSuccess [OF p] have n0: "\<not> list_ex isSuccess evs0" .
  show ?thesis
  proof (cases a)
    case (Inl err)
    with assms p n0 show ?thesis by (simp add: findGraphQLTags_def)
  next
    case (Inr root)
    show ?thesis
    proof (cases root)
      case None
      with assms p n0 Inr show ?thesis by (simp add: findGraphQLTags_def)
    next
      case (Some ast)
      let ?s0 = "\<lparr>queries = [], emitted = evs0\<rparr>"
      from preservesD [OF locateQueries_noSuccess, of ?s0 ext "file" ast] n0
      have "case locateQueries ext file ast ?s0 of
              Inl e \<Rightarrow> \<not> list_ex isSuccess (snd e)
            | Inr s' \<Rightarrow> \<not> list_ex isSuccess (emitted s')"
        by simp
      with assms p Inr Some show ?thesis
        by (auto simp: findGraphQLTags_def split: sum.splits)
    qed
  qed
qed

lemma cachedTags_trace:
  assumes "cachedTags ext hash file text w = (r, w1)"
  shows "\<exists>evs. trace w1 = trace w @ evs \<and> \<not> list_ex isSuccess evs"
proof (cases "cache w hash")
  case (Some defs)
  with assms show ?thesis by (auto simp: cachedTags_def)
next
  case None
  obtain a evs where f: "findGraphQLTags ext file text = (a, evs)"
    by (cases "findGraphQLTags ext file text")
  from findGraphQLTags_noSuccess [OF f] have "\<not> list_ex isSuccess evs" .
  with assms None f show ?thesis
    by (cases a) (auto simp: cachedTags_def emit_def)
qed

lemma string_of_nat_0: "string_of_nat 0 = ''0''"
  by (simp add: string_of_nat.simps)

lemma string_of_nat_21: "string_of_nat 21 = ''21''"
  by (simp add: string_of_nat.simps)


lemma pageExample_findGraphQLTags:
  "fst (findGraphQLTags (demoExt pageSource pageAst) ''src/pages/index.js'' pageSource) =
     Inr [\<lparr>node = \<lparr>def_name = Some \<lparr>name_value = ''srcPagesIndexJs2417117884'',
                                      name_kind = ''Name''\<rparr>,
                      def_loc_start = 0\<rparr>,
              isStaticQuery = None, isHook = None, q_text = None, q_hash = None,
              documentLocation = ''21-0''\<rparr>]"
  by (simp add: demoExt_def pageSource_def pageAst_def
      findGraphQLTags_def parseToAst_def locateQueries_def traverse_def
      demoTag_def generateQueryName_def locationKey_def string_of_nat_0 string_of_nat_21
      dedupe_def uniqBy_def warnForGlobalTag_def)

lemma pageExample_indexOf: "indexOf pageSource ''graphql'' \<noteq> - 1"
  by (simp add: pageSource_def indexOf_def)

lemma commentExample_indexOf: "indexOf commentSource ''graphql'' \<noteq> - 1"
  by (simp add: commentSource_def indexOf_def)

lemma commentExample_findGraphQLTags:
  "findGraphQLTags (demoExt commentSource (OtherNode [])) ''src/utils/format.js'' commentSource =
     (Inr [], [PreprocessSource ''src/utils/format.js'' commentSource,
               BabelParseToAst commentSource ''src/utils/format.js''])"
  by (simp add: demoExt_def findGraphQLTags_def parseToAst_def locateQueries_def traverse_def
      dedupe_def uniqBy_def)

lemma parseFile_extracted:
  assumes "parseFile ext file w = (res, w')"
    and "readFile ext file = Inr contents" and "indexOf contents ''graphql'' \<noteq> - 1"
    and "cachedTags ext (md5 ext (file @ contents)) file contents (emit [FsReadFile file] w) =
           (Inr defs, w1)"
  shows "(defs = [] \<longrightarrow> res = None \<and> w' = w1) \<and>
         (defs \<noteq> [] \<longrightarrow>
            res = Some \<lparr>doc_kind = ''Document'', definitions = defs\<rparr> \<and>
            w' = emit [QueryExtractedBabelSuccess file] w1) \<and>
         (QueryExtractedBabelSuccess file \<in> set (newEvents w w') \<longleftrightarrow> defs \<noteq> [])"
proof -
  from parseFile_cachedTags [OF assms(2-4)] assms(1)
  have r: "res = documentOf defs" "w' = emit (successOf file defs) w1" by simp_all
  from cachedTags_trace [OF assms(4)] obtain evs where
    evs: "trace w1 = trace (emit [FsReadFile file] w) @ evs" "\<not> list_ex isSuccess evs" by blast
  from evs(2) have ns: "QueryExtractedBabelSuccess file \<notin> set evs"
    by (auto simp: list_ex_iff)
  from r(2) evs(1) have "trace w' = trace w @ (FsReadFile file # evs @ successOf file defs)"
    by (simp add: emit_def)
  from newEvents_append [OF this]
  have "newEvents w w' = FsReadFile file # evs @ successOf file defs" .
  with ns have "QueryExtractedBabelSuccess file \<in> set (newEvents w w') \<longleftrightarrow> defs \<noteq> []"
    by (simp add: successOf_def)
  with r show ?thesis by (simp add: documentOf_def successOf_def emit_Nil)
qed

lemma parseFile_document_source:
  assumes "parseFile ext file w = (res, w')" and "res \<noteq> None"
  shows "\<exists>contents defs w1.
           readFile ext file = Inr contents \<and> indexOf contents ''graphql'' \<noteq> - 1 \<and>
           cachedTags ext (md5 ext (file @ contents)) file contents (emit [FsReadFile file] w) =
             (Inr defs, w1) \<and>
           defs \<noteq> [] \<and> res = Some \<lparr>doc_kind = ''Document'', definitions = defs\<rparr>"
proof (cases "readFile ext file")
  case (Inl err)
  with assms show ?thesis by (simp add: parseFile_def)
next
  case (Inr contents)
  show ?thesis
  proof (cases "indexOf contents ''graphql'' = - 1")
    case True
    with assms Inr show ?thesis by (simp add: parseFile_def)
  next
    case False
    obtain a w1 where c: "cachedTags ext (md5 ext (file @ contents)) file contents
                            (emit [FsReadFile file] w) = (a, w1)"
      by (cases "cachedTags ext (md5 ext (file @ contents)) file contents
                   (emit [FsReadFile file] w)")
    show ?thesis
    proof (cases a)
      case (Inl err)
      from parseFile_cachedTags_error [OF Inr False c [unfolded Inl]] assms show ?thesis by simp
    next
      case r: (Inr defs)
      from parseFile_extracted [OF assms(1) Inr False c [unfolded r]] assms(2)
      have "defs \<noteq> []" "res = Some \<lparr>doc_kind = ''Document'', definitions = defs\<rparr>" by auto
      with Inr False c r show ?thesis
        by (intro exI [of _ contents] exI [of _ defs] exI [of _ w1] conjI) simp_all
    qed
  qed
qed

lemma parseFile_trace_success:
  assumes "parseFile ext file w = (res, w')"
  shows "(\<forall>doc. res = Some doc \<longrightarrow> definitions doc \<noteq> [] \<and> doc_kind doc = ''Document'') \<and>
         (\<exists>evs. trace w' = trace w @ evs \<and>
            (QueryExtractedBabelSuccess file \<in> set evs \<longleftrightarrow> res \<noteq> None) \<and>
            length (filter isSuccess evs) = (if res = None then 0 else 1))"
proof (cases "readFile ext file")
  case (Inl err)
  with assms show ?thesis by (auto simp: parseFile_def emit_def)
next
  case (Inr contents)
  show ?thesis
  proof (cases "indexOf contents ''graphql'' = - 1")
    case True
    with assms Inr show ?thesis by (auto simp: parseFile_def emit_def)
  next
    case False
    let ?w0 = "emit [FsReadFile file] w"
    obtain a w1 where c: "cachedTags ext (md5 ext (file @ contents)) file contents ?w0 = (a, w1)"
      by (cases "cachedTags ext (md5 ext (file @ contents)) file contents ?w0")
    from cachedTags_trace [OF c] obtain evs where
      evs: "trace w1 = trace ?w0 @ evs" "\<not> list_ex isSuccess evs" by blast
    have ns: "QueryExtractedBabelSuccess file \<notin> set evs" "filter isSuccess evs = []"
      using evs(2) by (auto simp: list_ex_iff filter_empty_conv)
    show ?thesis
    proof (cases a)
      case (Inl err)
      with assms Inr False c evs ns show ?thesis
        by (auto simp: parseFile_def emit_def)
    next
      case (Inr defs)
      with assms \<open>readFile ext file = Inr contents\<close> False c evs ns show ?thesis
        by (cases "defs = []") (auto simp: parseFile_def emit_def)
    qed
  qed
qed

text \<open>
  C2: \<open>parseFile\<close> never returns an empty Document. Whenever the result is a
  Document its list of definitions is not empty, and among the events of the
  call the success notification for the file occurs exactly when the result
  is a Document, and then once. The result is determined by the list that the
  extraction yields, which is the cached list or else the list that
  \<open>findGraphQLTags\<close> returns: an empty list gives null, a list that is not
  empty gives the Document of exactly that list, and the success notification
  is among the events of the call exactly when the list is not empty. A
  Document is returned in no other way.
\<close>

theorem parseFile_never_empty:
  assumes "parseFile ext file w = (res, w')"
  shows "(\<forall>doc. res = Some doc \<longrightarrow> definitions doc \<noteq> [] \<and> doc_kind doc = ''Document'') \<and>
         (\<exists>evs. trace w' = trace w @ evs \<and>
            (QueryExtractedBabelSuccess file \<in> set evs \<longleftrightarrow> res \<noteq> None) \<and>
            length (filter isSuccess evs) = (if res = None then 0 else 1)) \<and>
         (\<forall>contents defs w1.
            readFile ext file = Inr contents \<and> indexOf contents ''graphql'' \<noteq> - 1 \<and>
            cachedTags ext (md5 ext (file @ contents)) file contents (emit [FsReadFile file] w) =
              (Inr defs, w1) \<longrightarrow>
            (defs = [] \<longrightarrow> res = None \<and> w' = w1) \<and>
            (defs \<noteq> [] \<longrightarrow>
               res = Some \<lparr>doc_kind = ''Document'', definitions = defs\<rparr> \<and>
               w' = emit [QueryExtractedBabelSuccess file] w1) \<and>
            (QueryExtractedBabelSuccess file \<in> set (newEvents w w') \<longleftrightarrow> defs \<noteq> [])) \<and>
         (\<forall>contents defs evs.
            readFile ext file = Inr contents \<and> indexOf contents ''graphql'' \<noteq> - 1 \<and>
            cache w (md5 ext (file @ contents)) = None \<and>
            findGraphQLTags ext file contents = (Inr defs, evs) \<longrightarrow>
            (defs = [] \<longrightarrow> res = None) \<and>
            (defs \<noteq> [] \<longrightarrow> res = Some \<lparr>doc_kind = ''Document'', definitions = defs\<rparr>) \<and>
            (QueryExtractedBabelSuccess file \<in> set (newEvents w w') \<longleftrightarrow> defs \<noteq> [])) \<and>
         (\<forall>contents defs.
            readFile ext file = Inr contents \<and> indexOf contents ''graphql'' \<noteq> - 1 \<and>
            cache w (md5 ext (file @ contents)) = Some defs \<longrightarrow>
            (defs = [] \<longrightarrow> res = None) \<and>
            (defs \<noteq> [] \<longrightarrow> res = Some \<lparr>doc_kind = ''Document'', definitions = defs\<rparr>) \<and>
            (QueryExtractedBabelSuccess file \<in> set (newEvents w w') \<longleftrightarrow> defs \<noteq> [])) \<and>
         (res \<noteq> None \<longrightarrow>
            (\<exists>contents defs w1.
               readFile ext file = Inr contents \<and> indexOf contents ''graphql'' \<noteq> - 1 \<and>
               cachedTags ext (md5 ext (file @ contents)) file contents
                 (emit [FsReadFile file] w) = (Inr defs, w1) \<and>
               defs \<noteq> [] \<and> res = Some \<lparr>doc_kind = ''Document'', definitions = defs\<rparr>))"
proof (intro conjI)
  note a = parseFile_trace_success [OF assms]
  show "\<forall>doc. res = Some doc \<longrightarrow> definitions doc \<noteq> [] \<and> doc_kind doc = ''Document''"
    using a by (rule conjunct1)
  show "\<exists>evs. trace w' = trace w @ evs \<and>
            (QueryExtractedBabelSuccess file \<in> set evs \<longleftrightarrow> res \<noteq> None) \<and>
            length (filter isSuccess evs) = (if res = None then 0 else 1)"
    using a by (rule conjunct2)
  show "\<forall>contents defs w1.
            readFile ext file = Inr contents \<and> indexOf contents ''graphql'' \<noteq> - 1 \<and>
            cachedTags ext (md5 ext (file @ contents)) file contents (emit [FsReadFile file] w) =
              (Inr defs, w1) \<longrightarrow>
            (defs = [] \<longrightarrow> res = None \<and> w' = w1) \<and>
            (defs \<noteq> [] \<longrightarrow>
               res = Some \<lparr>doc_kind = ''Document'', definitions = defs\<rparr> \<and>
               w' = emit [QueryExtractedBabelSuccess file] w1) \<and>
            (QueryExtractedBabelSuccess file \<in> set (newEvents w w') \<longleftrightarrow> defs \<noteq> [])"
  proof (intro allI impI, elim conjE)
    fix contents defs w1
    assume 1: "readFile ext file = Inr contents" and 2: "indexOf contents ''graphql'' \<noteq> - 1"
      and 3: "cachedTags ext (md5 ext (file @ contents)) file contents
                (emit [FsReadFile file] w) = (Inr defs, w1)"
    show "(defs = [] \<longrightarrow> res = None \<and> w' = w1) \<and>
            (defs \<noteq> [] \<longrightarrow>
               res = Some \<lparr>doc_kind = ''Document'', definitions = defs\<rparr> \<and>
               w' = emit [QueryExtractedBabelSuccess file] w1) \<and>
            (QueryExtractedBabelSuccess file \<in> set (newEvents w w') \<longleftrightarrow> defs \<noteq> [])"
      by (rule parseFile_extracted [OF assms 1 2 3])
  qed
  show "\<forall>contents defs evs.
            readFile ext file = Inr contents \<and> indexOf contents ''graphql'' \<noteq> - 1 \<and>
            cache w (md5 ext (file @ contents)) = None \<and>
            findGraphQLTags ext file contents = (Inr defs, evs) \<longrightarrow>
            (defs = [] \<longrightarrow> res = None) \<and>
            (defs \<noteq> [] \<longrightarrow> res = Some \<lparr>doc_kind = ''Document'', definitions = defs\<rparr>) \<and>
            (QueryExtractedBabelSuccess file \<in> set (newEvents w w') \<longleftrightarrow> defs \<noteq> [])"
  proof (intro allI impI, elim conjE)
    fix contents defs evs
    assume 1: "readFile ext file = Inr contents" and 2: "indexOf contents ''graphql'' \<noteq> - 1"
      and 3: "cache w (md5 ext (file @ contents)) = None"
      and 4: "findGraphQLTags ext file contents = (Inr defs, evs)"
    from 3 have "cache (emit [FsReadFile file] w) (md5 ext (file @ contents)) = None"
      by (simp add: emit_def)
    from cachedTags_miss [OF this 4]
    have "cachedTags ext (md5 ext (file @ contents)) file contents (emit [FsReadFile file] w) =
            (Inr defs, emit evs ((emit [FsReadFile file] w)
               \<lparr>cache := (cache (emit [FsReadFile file] w))(md5 ext (file @ contents) \<mapsto> defs)\<rparr>))" .
    from parseFile_extracted [OF assms 1 2 this]
    show "(defs = [] \<longrightarrow> res = None) \<and>
            (defs \<noteq> [] \<longrightarrow> res = Some \<lparr>doc_kind = ''Document'', definitions = defs\<rparr>) \<and>
            (QueryExtractedBabelSuccess file \<in> set (newEvents w w') \<longleftrightarrow> defs \<noteq> [])"
      by simp
  qed
  show "\<forall>contents defs.
            readFile ext file = Inr contents \<and> indexOf contents ''graphql'' \<noteq> - 1 \<and>
            cache w (md5 ext (file @ contents)) = Some defs \<longrightarrow>
            (defs = [] \<longrightarrow> res = None) \<and>
            (defs \<noteq> [] \<longrightarrow> res = Some \<lparr>doc_kind = ''Document'', definitions = defs\<rparr>) \<and>
            (QueryExtractedBabelSuccess file \<in> set (newEvents w w') \<longleftrightarrow> defs \<noteq> [])"
  proof (intro allI impI, elim conjE)
    fix contents defs
    assume 1: "readFile ext file = Inr contents" and 2: "indexOf contents ''graphql'' \<noteq> - 1"
      and 3: "cache w (md5 ext (file @ contents)) = Some defs"
    from 3 have "cache (emit [FsReadFile file] w) (md5 ext (file @ contents)) = Some defs"
      by (simp add: emit_def)
    from cachedTags_hit [OF this]
    have "cachedTags ext (md5 ext (file @ contents)) file contents (emit [FsReadFile file] w) =
            (Inr defs, emit [FsReadFile file] w)" .
    from parseFile_extracted [OF assms 1 2 this]
    show "(defs = [] \<longrightarrow> res = None) \<and>
            (defs \<noteq> [] \<longrightarrow> res = Some \<lparr>doc_kind = ''Document'', definitions = defs\<rparr>) \<and>
            (QueryExtractedBabelSuccess file \<in> set (newEvents w w') \<longleftrightarrow> defs \<noteq> [])"
      by simp
  qed
  show "res \<noteq> None \<longrightarrow>
            (\<exists>contents defs w1.
               readFile ext file = Inr contents \<and> indexOf contents ''graphql'' \<noteq> - 1 \<and>
               cachedTags ext (md5 ext (file @ contents)) file contents
                 (emit [FsReadFile file] w) = (Inr defs, w1) \<and>
               defs \<noteq> [] \<and> res = Some \<lparr>doc_kind = ''Document'', definitions = defs\<rparr>)"
    by (rule impI) (rule parseFile_document_source [OF assms])
qed

theorem parseFile_never_empty_witness:
  "(\<exists>doc. fst (parseFile (demoExt pageSource pageAst) ''src/pages/index.js'' emptyWorld) = Some doc \<and>
      definitions doc \<noteq> [] \<and> doc_kind doc = ''Document'' \<and>
      fst (findGraphQLTags (demoExt pageSource pageAst) ''src/pages/index.js'' pageSource) =
        Inr (definitions doc) \<and>
      QueryExtractedBabelSuccess ''src/pages/index.js'' \<in>
        set (newEvents emptyWorld
               (snd (parseFile (demoExt pageSource pageAst) ''src/pages/index.js'' emptyWorld)))) \<and>
   fst (findGraphQLTags (demoExt commentSource (OtherNode [])) ''src/utils/format.js''
          commentSource) = Inr [] \<and>
   fst (parseFile (demoExt commentSource (OtherNode [])) ''src/utils/format.js'' emptyWorld) =
     None \<and>
   QueryExtractedBabelSuccess ''src/utils/format.js'' \<notin>
     set (newEvents emptyWorld
            (snd (parseFile (demoExt commentSource (OtherNode [])) ''src/utils/format.js''
                    emptyWorld)))"
proof -
  let ?ext = "demoExt pageSource pageAst"
  let ?cext = "demoExt commentSource (OtherNode [])"
  let ?q = "\<lparr>node = \<lparr>def_name = Some \<lparr>name_value = ''srcPagesIndexJs2417117884'',
                                          name_kind = ''Name''\<rparr>,
                          def_loc_start = 0\<rparr>,
             isStaticQuery = None, isHook = None, q_text = None, q_hash = None,
             documentLocation = ''21-0''\<rparr>"
  let ?doc = "\<lparr>doc_kind = ''Document'', definitions = [?q]\<rparr>"
  note t = parseFile_never_empty [OF surjective_pairing, of ?ext "''src/pages/index.js''" emptyWorld]
  note t0 = parseFile_never_empty
              [OF surjective_pairing, of ?cext "''src/utils/format.js''" emptyWorld]
  have f: "findGraphQLTags ?ext ''src/pages/index.js'' pageSource =
             (Inr [?q], snd (findGraphQLTags ?ext ''src/pages/index.js'' pageSource))"
    using pageExample_findGraphQLTags by (simp add: prod_eq_iff)
  have h: "readFile ?ext ''src/pages/index.js'' = Inr pageSource \<and>
           indexOf pageSource ''graphql'' \<noteq> - 1 \<and>
           cache emptyWorld (md5 ?ext (''src/pages/index.js'' @ pageSource)) = None \<and>
           findGraphQLTags ?ext ''src/pages/index.js'' pageSource =
             (Inr [?q], snd (findGraphQLTags ?ext ''src/pages/index.js'' pageSource))"
    using f pageExample_indexOf by (simp add: demoExt_def emptyWorld_def)
  from t [THEN conjunct2, THEN conjunct2, THEN conjunct2, THEN conjunct1, rule_format, OF h]
  have r: "fst (parseFile ?ext ''src/pages/index.js'' emptyWorld) = Some ?doc"
    and s: "QueryExtractedBabelSuccess ''src/pages/index.js'' \<in>
        set (newEvents emptyWorld (snd (parseFile ?ext ''src/pages/index.js'' emptyWorld)))"
    by simp_all
  from t [THEN conjunct1, rule_format, OF r]
  have n: "definitions ?doc \<noteq> []" "doc_kind ?doc = ''Document''" by simp_all
  have e: "fst (findGraphQLTags ?ext ''src/pages/index.js'' pageSource) = Inr (definitions ?doc)"
    using pageExample_findGraphQLTags by simp
  have h0: "readFile ?cext ''src/utils/format.js'' = Inr commentSource \<and>
           indexOf commentSource ''graphql'' \<noteq> - 1 \<and>
           cache emptyWorld (md5 ?cext (''src/utils/format.js'' @ commentSource)) = None \<and>
           findGraphQLTags ?cext ''src/utils/format.js'' commentSource =
             (Inr [], [PreprocessSource ''src/utils/format.js'' commentSource,
                       BabelParseToAst commentSource ''src/utils/format.js''])"
    using commentExample_findGraphQLTags commentExample_indexOf
    by (simp add: demoExt_def emptyWorld_def)
  from t0 [THEN conjunct2, THEN conjunct2, THEN conjunct2, THEN conjunct1, rule_format, OF h0]
  have r0: "fst (parseFile ?cext ''src/utils/format.js'' emptyWorld) = None"
    and s0: "QueryExtractedBabelSuccess ''src/utils/format.js'' \<notin>
        set (newEvents emptyWorld (snd (parseFile ?cext ''src/utils/format.js'' emptyWorld)))"
    by simp_all
  have e0: "fst (findGraphQLTags ?cext ''src/utils/format.js'' commentSource) = Inr []"
    by (simp add: commentExample_findGraphQLTags)
  from r n e s have 1: "\<exists>doc. fst (parseFile ?ext ''src/pages/index.js'' emptyWorld) = Some doc \<and>
      definitions doc \<noteq> [] \<and> doc_kind doc = ''Document'' \<and>
      fst (findGraphQLTags ?ext ''src/pages/index.js'' pageSource) = Inr (definitions doc) \<and>
      QueryExtractedBabelSuccess ''src/pages/index.js'' \<in>
        set (newEvents emptyWorld (snd (parseFile ?ext ''src/pages/index.js'' emptyWorld)))"
    by (intro exI [of _ ?doc] conjI)
  from 1 e0 r0 s0 show ?thesis by (intro conjI)
qed

subsection \<open>Reports of the candidate loop\<close>

lemma failureReport_isl:
  "isl (babelParseToAst ext c filePath) \<Longrightarrow>
   QueryExtractionGraphQLError filePath \<in> set (failureReport ext filePath c)"
  by (cases "babelParseToAst ext c filePath") (simp_all add: failureReport_def)

text \<open>
  C6 (as the code has it): when preprocessing produces candidates,
  \<open>parseToAst\<close> returns the tree of the first candidate that parses; every
  candidate tried before it that fails to parse is reported at once, with the
  extraction-error notification for the file. When all candidates fail, a
  final report and notification follow and the result is null. So the
  notification is emitted exactly when the first candidate fails to parse,
  whether or not a later one parses.
\<close>

theorem parseToAst_candidates:
  assumes "preprocessSource ext filePath fileStr = Inr (Some cands)" and "cands \<noteq> []"
  shows "(\<forall>bad good rest tmp.
            cands = bad @ good # rest \<and> (\<forall>c \<in> set bad. isl (babelParseToAst ext c filePath)) \<and>
            babelParseToAst ext good filePath = Inr tmp \<longrightarrow>
            parseToAst ext filePath fileStr =
              (Inr (Some tmp),
               PreprocessSource filePath fileStr # concat (map (failureReport ext filePath) bad) @
                 [BabelParseToAst good filePath])) \<and>
         ((\<forall>c \<in> set cands. isl (babelParseToAst ext c filePath)) \<longrightarrow>
            parseToAst ext filePath fileStr =
              (Inr None,
               PreprocessSource filePath fileStr # concat (map (failureReport ext filePath) cands) @
                 [ReportError (''Failed to parse preprocessed file '' @ filePath) None,
                  QueryExtractionGraphQLError filePath])) \<and>
         (QueryExtractionGraphQLError filePath \<in> set (snd (parseToAst ext filePath fileStr)) \<longleftrightarrow>
            isl (babelParseToAst ext (hd cands) filePath))"
proof (intro conjI allI impI)
  fix bad good rest tmp
  assume a: "cands = bad @ good # rest \<and> (\<forall>c \<in> set bad. isl (babelParseToAst ext c filePath)) \<and>
            babelParseToAst ext good filePath = Inr tmp"
  then have "tryCandidates ext filePath cands =
     (Some tmp, concat (map (failureReport ext filePath) bad) @ [BabelParseToAst good filePath])"
    using tryCandidates_first [of bad ext filePath good tmp rest] by simp
  with assms show "parseToAst ext filePath fileStr =
              (Inr (Some tmp),
               PreprocessSource filePath fileStr # concat (map (failureReport ext filePath) bad) @
                 [BabelParseToAst good filePath])"
    by (simp add: parseToAst_def)
next
  assume "\<forall>c \<in> set cands. isl (babelParseToAst ext c filePath)"
  from tryCandidates_all_fail [OF this] assms
  show "parseToAst ext filePath fileStr =
              (Inr None,
               PreprocessSource filePath fileStr # concat (map (failureReport ext filePath) cands) @
                 [ReportError (''Failed to parse preprocessed file '' @ filePath) None,
                  QueryExtractionGraphQLError filePath])"
    by (simp add: parseToAst_def)
next
  show "QueryExtractionGraphQLError filePath \<in> set (snd (parseToAst ext filePath fileStr)) \<longleftrightarrow>
            isl (babelParseToAst ext (hd cands) filePath)"
  proof (cases "\<forall>c \<in> set cands. isl (babelParseToAst ext c filePath)")
    case True
    from tryCandidates_all_fail [OF True] assms True show ?thesis
      by (cases cands) (simp_all add: parseToAst_def)
  next
    case False
    then have "\<exists>c \<in> set cands. \<not> isl (babelParseToAst ext c filePath)" by simp
    from split_list_first_prop [OF this] obtain bad good rest where
      sp: "cands = bad @ good # rest" "\<not> isl (babelParseToAst ext good filePath)"
          "\<forall>c \<in> set bad. isl (babelParseToAst ext c filePath)"
      by auto
    from sp(2) obtain tmp where g: "babelParseToAst ext good filePath = Inr tmp"
      by (cases "babelParseToAst ext good filePath") auto
    from tryCandidates_first [OF sp(3) g, of rest] sp(1) assms
    have p: "snd (parseToAst ext filePath fileStr) =
       PreprocessSource filePath fileStr # concat (map (failureReport ext filePath) bad) @
                 [BabelParseToAst good filePath]"
      by (simp add: parseToAst_def)
    show ?thesis
    proof (cases bad)
      case Nil
      with p sp g show ?thesis by simp
    next
      case (Cons b bs)
      with sp have "isl (babelParseToAst ext b filePath)" by simp
      from failureReport_isl [OF this] p Cons sp this show ?thesis by simp
    qed
  qed
qed

theorem parseToAst_candidates_witness:
  "preprocessSource candidateExt ''src/pages/index.js'' pageSource =
     Inr (Some [''<script>'', pageSource]) \<and>
   isl (babelParseToAst candidateExt ''<script>'' ''src/pages/index.js'') \<and>
   babelParseToAst candidateExt pageSource ''src/pages/index.js'' = Inr pageAst \<and>
   QueryExtractionGraphQLError ''src/pages/index.js'' \<in>
     set (snd (parseToAst candidateExt ''src/pages/index.js'' pageSource)) \<and>
   fst (parseToAst candidateExt ''src/pages/index.js'' pageSource) = Inr (Some pageAst) \<and>
   parseToAst (candidateExt\<lparr>preprocessSource := (\<lambda>file contents. Inr (Some [''<script>'']))\<rparr>)
       ''src/pages/index.js'' pageSource =
     (Inr None,
      [PreprocessSource ''src/pages/index.js'' pageSource,
       BabelParseToAst ''<script>'' ''src/pages/index.js'',
       ReportErrorObject ''SyntaxError: Unexpected token (1:0)'',
       QueryExtractionGraphQLError ''src/pages/index.js'',
       ReportError ''Failed to parse preprocessed file src/pages/index.js'' None,
       QueryExtractionGraphQLError ''src/pages/index.js''])"
proof -
  let ?f = "''src/pages/index.js''"
  let ?ext2 = "candidateExt\<lparr>preprocessSource := (\<lambda>file contents. Inr (Some [''<script>'']))\<rparr>"
  have h: "preprocessSource candidateExt ?f pageSource = Inr (Some [''<script>'', pageSource])"
    by (simp add: candidateExt_def demoExt_def)
  have f: "isl (babelParseToAst candidateExt ''<script>'' ?f)"
    by (simp add: candidateExt_def demoExt_def pageSource_def)
  have g: "babelParseToAst candidateExt pageSource ?f = Inr pageAst"
    by (simp add: candidateExt_def demoExt_def)
  note t = parseToAst_candidates [OF h]
  from t f have m: "QueryExtractionGraphQLError ?f \<in> set (snd (parseToAst candidateExt ?f pageSource))"
    by simp
  have "[''<script>'', pageSource] = [''<script>''] @ pageSource # [] \<and>
        (\<forall>c \<in> set [''<script>'']. isl (babelParseToAst candidateExt c ?f)) \<and>
        babelParseToAst candidateExt pageSource ?f = Inr pageAst"
    using f g by simp
  with t have "parseToAst candidateExt ?f pageSource =
      (Inr (Some pageAst),
       PreprocessSource ?f pageSource #
         concat (map (failureReport candidateExt ?f) [''<script>'']) @
         [BabelParseToAst pageSource ?f])"
    by blast
  then have r: "fst (parseToAst candidateExt ?f pageSource) = Inr (Some pageAst)" by simp
  have h2: "preprocessSource ?ext2 ?f pageSource = Inr (Some [''<script>''])" by simp
  have f2: "\<forall>c \<in> set [''<script>'']. isl (babelParseToAst ?ext2 c ?f)"
    by (simp add: candidateExt_def demoExt_def pageSource_def)
  from parseToAst_candidates [OF h2] f2
  have "parseToAst ?ext2 ?f pageSource =
      (Inr None,
       PreprocessSource ?f pageSource # concat (map (failureReport ?ext2 ?f) [''<script>'']) @
         [ReportError (''Failed to parse preprocessed file '' @ ?f) None,
          QueryExtractionGraphQLError ?f])"
    by blast
  then have a: "parseToAst ?ext2 ?f pageSource =
     (Inr None,
      [PreprocessSource ?f pageSource,
       BabelParseToAst ''<script>'' ?f,
       ReportErrorObject ''SyntaxError: Unexpected token (1:0)'',
       QueryExtractionGraphQLError ?f,
       ReportError ''Failed to parse preprocessed file src/pages/index.js'' None,
       QueryExtractionGraphQLError ?f])"
    by (simp add: failureReport_def candidateExt_def demoExt_def pageSource_def)
  from h f g m r a show ?thesis by (intro conjI)
qed

text \<open>The claim's "precisely when all candidates fail" does not hold: here the
  second candidate parses and its tree is returned, and the failure of the
  first has been reported with the notification.\<close>

theorem parseToAst_reports_before_success:
  "parseToAst candidateExt ''src/pages/index.js'' pageSource =
     (Inr (Some pageAst),
      [PreprocessSource ''src/pages/index.js'' pageSource,
       BabelParseToAst ''<script>'' ''src/pages/index.js'',
       ReportErrorObject ''SyntaxError: Unexpected token (1:0)'',
       QueryExtractionGraphQLError ''src/pages/index.js'',
       BabelParseToAst pageSource ''src/pages/index.js''])"
  by (simp add: parseToAst_def candidateExt_def demoExt_def pageSource_def)

subsection \<open>Names and metadata of the located fragments\<close>









subsection \<open>What the traversal pushes\<close>


















subsection \<open>The template of a fragment\<close>














lemma generateQueryName_cases:
  "(\<forall>n. def_name d = Some n \<and> name_value n \<noteq> [] \<longrightarrow> generateQueryName ext d hash file = d) \<and>
   (def_name d = None \<or> (\<exists>n. def_name d = Some n \<and> name_value n = []) \<longrightarrow>
      generateQueryName ext d hash file =
        d\<lparr>def_name := Some \<lparr>name_value = camelCase ext file @ hash, name_kind = ''Name''\<rparr>\<rparr>)"
  by (auto simp: generateQueryName_def)






subsection \<open>What a fragment of a Document exposes\<close>












subsection \<open>The cache\<close>

lemma successOf_noCall: "\<not> list_ex isExtractionCall (successOf file defs)"
  by (simp add: successOf_def)

lemma parseFile_same_result:
  assumes "parseFile ext file w = (r1, w1)" and "parseFile ext file w1 = (r2, w2)"
  shows "r2 = r1"
proof (cases "readFile ext file")
  case (Inl err)
  with assms show ?thesis by (simp add: parseFile_read_error)
next
  case (Inr contents)
  show ?thesis
  proof (cases "indexOf contents ''graphql'' = - 1")
    case True
    with assms Inr show ?thesis by (simp add: parseFile_no_tag)
  next
    case False
    let ?k = "md5 ext (file @ contents)"
    show ?thesis
    proof (cases "cache w ?k")
      case (Some defs)
      from parseFile_hit [OF Inr False Some] assms(1) Some
      have "r1 = documentOf defs" "cache w1 ?k = Some defs" by auto
      with parseFile_hit [OF Inr False this(2)] assms(2) show ?thesis by simp
    next
      case None
      obtain a evs where f: "findGraphQLTags ext file contents = (a, evs)"
        by (cases "findGraphQLTags ext file contents")
      show ?thesis
      proof (cases a)
        case (Inl err)
        from parseFile_miss_error [OF Inr False None f [unfolded Inl]] assms(1)
        have "r1 = None" "cache w1 ?k = None" using None by auto
        with parseFile_miss_error [OF Inr False this(2) f [unfolded Inl]] assms(2)
        show ?thesis by simp
      next
        case (Inr defs)
        from parseFile_miss [OF \<open>readFile ext file = Inr contents\<close> False None f [unfolded Inr]]
          assms(1)
        have "r1 = documentOf defs" "cache w1 ?k = Some defs" by auto
        with parseFile_hit [OF \<open>readFile ext file = Inr contents\<close> False this(2)] assms(2)
        show ?thesis by simp
      qed
    qed
  qed
qed

lemma parseFile_second_hits:
  assumes "parseFile ext file w = (r1, w1)" and "parseFile ext file w1 = (r2, w2)"
    and ok: "\<forall>contents. readFile ext file = Inr contents \<longrightarrow>
               \<not> isl (fst (findGraphQLTags ext file contents))"
  shows "\<not> list_ex isExtractionCall (newEvents w1 w2)"
proof (cases "readFile ext file")
  case (Inl err)
  with assms(2) show ?thesis by (auto simp: parseFile_read_error newEvents_def)
next
  case (Inr contents)
  show ?thesis
  proof (cases "indexOf contents ''graphql'' = - 1")
    case True
    with assms(2) Inr show ?thesis by (auto simp: parseFile_no_tag newEvents_def)
  next
    case False
    let ?k = "md5 ext (file @ contents)"
    have "\<exists>defs. cache w1 ?k = Some defs"
    proof (cases "cache w ?k")
      case (Some defs)
      from parseFile_hit [OF Inr False Some] assms(1) Some show ?thesis by auto
    next
      case None
      obtain a evs where f: "findGraphQLTags ext file contents = (a, evs)"
        by (cases "findGraphQLTags ext file contents")
      from ok Inr f obtain defs where a: "a = Inr defs" by (cases a) auto
      from parseFile_miss [OF Inr False None f [unfolded a]] assms(1) show ?thesis by auto
    qed
    then obtain defs where "cache w1 ?k = Some defs" ..
    from parseFile_hit [OF Inr False this] assms(2) show ?thesis
      by (auto simp: newEvents_def successOf_noCall)
  qed
qed

lemma parseToAst_calls_preprocessor:
  "PreprocessSource filePath fileStr \<in> set (snd (parseToAst ext filePath fileStr))"
  by (simp add: parseToAst_def split: sum.splits prod.splits option.splits)

lemma locateQueries_keeps_event:
  "preserves (\<lambda>s. ev \<in> set (emitted s)) (\<lambda>e. ev \<in> set (snd e)) (locateQueries ext file root)"
proof (rule preserves_locateQueries)
  fix t h
  show "preserves (\<lambda>s. ev \<in> set (emitted s)) (\<lambda>e. ev \<in> set (snd e))
          (extractStaticQuery ext file t h)"
    by (cases t) (auto simp: preserves_def split: sum.splits option.splits)
next
  fix t
  show "preserves (\<lambda>s. ev \<in> set (emitted s)) (\<lambda>e. ev \<in> set (snd e))
          (pageQueryVisitor ext file t)"
    by (cases t) (auto simp: preserves_def split: sum.splits option.splits)
qed simp_all

lemma findGraphQLTags_calls_preprocessor:
  "PreprocessSource file contents \<in> set (snd (findGraphQLTags ext file contents))"
proof -
  obtain a evs0 where p: "parseToAst ext file contents = (a, evs0)"
    by (cases "parseToAst ext file contents")
  with parseToAst_calls_preprocessor [of "file" contents ext]
  have m: "PreprocessSource file contents \<in> set evs0" by simp
  show ?thesis
  proof (cases a)
    case (Inl err)
    with p m show ?thesis by (simp add: findGraphQLTags_def)
  next
    case (Inr root)
    show ?thesis
    proof (cases root)
      case None
      with p m Inr show ?thesis by (simp add: findGraphQLTags_def)
    next
      case (Some ast)
      let ?s0 = "\<lparr>queries = [], emitted = evs0\<rparr>"
      from preservesD [OF locateQueries_keeps_event, of "PreprocessSource file contents" ?s0
             ext "file" ast] m
      have "case locateQueries ext file ast ?s0 of
              Inl e \<Rightarrow> PreprocessSource file contents \<in> set (snd e)
            | Inr s' \<Rightarrow> PreprocessSource file contents \<in> set (emitted s')"
        by simp
      with p Inr Some show ?thesis
        by (auto simp: findGraphQLTags_def split: sum.splits)
    qed
  qed
qed

lemma parseFile_cache_other:
  assumes "parseFile ext file w = (r, w1)" and "readFile ext file = Inr contents"
    and "k \<noteq> md5 ext (file @ contents)"
  shows "cache w1 k = cache w k"
proof (cases "indexOf contents ''graphql'' = - 1")
  case True
  with assms show ?thesis by (auto simp: parseFile_no_tag)
next
  case False
  show ?thesis
  proof (cases "cache w (md5 ext (file @ contents))")
    case (Some defs)
    from parseFile_hit [OF assms(2) False Some] assms(1) show ?thesis by auto
  next
    case None
    obtain a evs where f: "findGraphQLTags ext file contents = (a, evs)"
      by (cases "findGraphQLTags ext file contents")
    show ?thesis
    proof (cases a)
      case (Inl err)
      from parseFile_miss_error [OF assms(2) False None f [unfolded Inl]] assms(1)
      show ?thesis by auto
    next
      case (Inr defs)
      from parseFile_miss [OF assms(2) False None f [unfolded Inr]] assms(1) assms(3)
      show ?thesis by auto
    qed
  qed
qed

lemma parseFile_miss_reruns:
  assumes "readFile ext file = Inr contents" and "indexOf contents ''graphql'' \<noteq> - 1"
    and "cache w (md5 ext (file @ contents)) = None"
  shows "PreprocessSource file contents \<in> set (newEvents w (snd (parseFile ext file w)))"
proof -
  obtain a evs where f: "findGraphQLTags ext file contents = (a, evs)"
    by (cases "findGraphQLTags ext file contents")
  with findGraphQLTags_calls_preprocessor [of "file" contents ext]
  have m: "PreprocessSource file contents \<in> set evs" by simp
  show ?thesis
  proof (cases a)
    case (Inl err)
    from parseFile_miss_error [OF assms f [unfolded Inl]] m show ?thesis
      by (simp add: newEvents_def)
  next
    case (Inr defs)
    from parseFile_miss [OF assms f [unfolded Inr]] m show ?thesis
      by (simp add: newEvents_def)
  qed
qed

lemma brokenExample_findGraphQLTags:
  "findGraphQLTags brokenExt ''src/pages/index.js'' brokenSource =
     (Inl ''GraphQLError: Syntax Error: Expected Name, found <EOF>'',
      [PreprocessSource ''src/pages/index.js'' brokenSource,
       BabelParseToAst brokenSource ''src/pages/index.js''])"
  by (simp add: brokenExt_def demoExt_def pageAst_def
      findGraphQLTags_def parseToAst_def locateQueries_def traverse_def)

lemma brokenExample_indexOf: "indexOf brokenSource ''graphql'' \<noteq> - 1"
  by (simp add: brokenSource_def indexOf_def)

lemma brokenExample_first:
  "parseFile brokenExt ''src/pages/index.js'' emptyWorld =
     (None,
      \<lparr>cache = Map.empty,
       trace = [FsReadFile ''src/pages/index.js'',
                PreprocessSource ''src/pages/index.js'' brokenSource,
                BabelParseToAst brokenSource ''src/pages/index.js'',
                ReportError ''There was a problem parsing the GraphQL query in file: src/pages/index.js''
                  (Some ''GraphQLError: Syntax Error: Expected Name, found <EOF>''),
                QueryExtractionGraphQLError ''src/pages/index.js'']\<rparr>)"
proof -
  have r: "readFile brokenExt ''src/pages/index.js'' = Inr brokenSource"
    by (simp add: brokenExt_def demoExt_def)
  have c: "cache emptyWorld (md5 brokenExt (''src/pages/index.js'' @ brokenSource)) = None"
    by (simp add: emptyWorld_def)
  from parseFile_miss_error [OF r brokenExample_indexOf c brokenExample_findGraphQLTags]
  show ?thesis by (simp add: emptyWorld_def)
qed

lemma parseFile_reruns_iff:
  assumes "readFile ext file = Inr contents"
  shows "(list_ex isExtractionCall (newEvents w (snd (parseFile ext file w))) \<longleftrightarrow>
            indexOf contents ''graphql'' \<noteq> - 1 \<and> cache w (md5 ext (file @ contents)) = None) \<and>
         (PreprocessSource file contents \<in> set (newEvents w (snd (parseFile ext file w))) \<longleftrightarrow>
            indexOf contents ''graphql'' \<noteq> - 1 \<and> cache w (md5 ext (file @ contents)) = None)"
proof (cases "indexOf contents ''graphql'' = - 1")
  case True
  from parseFile_no_tag [OF assms True, of w] True show ?thesis
    by (simp add: newEvents_def)
next
  case False
  show ?thesis
  proof (cases "cache w (md5 ext (file @ contents))")
    case (Some defs)
    from parseFile_hit [OF assms False Some] Some show ?thesis
      by (simp add: newEvents_def successOf_def)
  next
    case None
    from parseFile_miss_reruns [OF assms False None]
    have m: "PreprocessSource file contents \<in> set (newEvents w (snd (parseFile ext file w)))" .
    then have "list_ex isExtractionCall (newEvents w (snd (parseFile ext file w)))"
      unfolding list_ex_iff by (rule bexI [rotated]) simp
    with m False None show ?thesis by simp
  qed
qed

lemma parseFile_cache_after:
  assumes "parseFile ext file w = (r1, w1)"
  shows "cache w1 = cache w \<or>
         (\<exists>contents defs evs.
            readFile ext file = Inr contents \<and> indexOf contents ''graphql'' \<noteq> - 1 \<and>
            cache w (md5 ext (file @ contents)) = None \<and>
            findGraphQLTags ext file contents = (Inr defs, evs) \<and>
            cache w1 = (cache w)(md5 ext (file @ contents) \<mapsto> defs))"
proof (cases "readFile ext file")
  case (Inl err)
  from parseFile_read_error [OF Inl, of w] assms show ?thesis by auto
next
  case (Inr contents)
  show ?thesis
  proof (cases "indexOf contents ''graphql'' = - 1")
    case True
    from parseFile_no_tag [OF Inr True, of w] assms show ?thesis by auto
  next
    case False
    show ?thesis
    proof (cases "cache w (md5 ext (file @ contents))")
      case (Some defs)
      from parseFile_hit [OF Inr False Some] assms show ?thesis by auto
    next
      case None
      obtain a evs where f: "findGraphQLTags ext file contents = (a, evs)"
        by (cases "findGraphQLTags ext file contents")
      show ?thesis
      proof (cases a)
        case (Inl err)
        from parseFile_miss_error [OF Inr False None f [unfolded Inl]] assms
        show ?thesis by auto
      next
        case r: (Inr defs)
        from parseFile_miss [OF Inr False None f [unfolded r]] assms
        have "cache w1 = (cache w)(md5 ext (file @ contents) \<mapsto> defs)" by auto
        with Inr False None f r show ?thesis
          by (intro disjI2 exI [of _ contents] exI [of _ defs] exI [of _ evs] conjI) simp_all
      qed
    qed
  qed
qed

lemma parseFile_second_served:
  assumes "parseFile ext file w = (r1, w1)" and "parseFile ext file w1 = (r2, w2)"
    and "readFile ext file = Inr contents" and "indexOf contents ''graphql'' \<noteq> - 1"
    and "\<not> isl (fst (findGraphQLTags ext file contents))"
  shows "\<exists>defs. cache w1 (md5 ext (file @ contents)) = Some defs \<and> r2 = documentOf defs \<and>
           newEvents w1 w2 = FsReadFile file # successOf file defs"
proof -
  let ?k = "md5 ext (file @ contents)"
  have "\<exists>defs. cache w1 ?k = Some defs"
  proof (cases "cache w ?k")
    case (Some defs)
    from parseFile_hit [OF assms(3,4) Some] assms(1) Some show ?thesis by auto
  next
    case None
    obtain a evs where f: "findGraphQLTags ext file contents = (a, evs)"
      by (cases "findGraphQLTags ext file contents")
    from assms(5) f obtain defs where a: "a = Inr defs" by (cases a) auto
    from parseFile_miss [OF assms(3,4) None f [unfolded a]] assms(1) show ?thesis by auto
  qed
  then obtain defs where c: "cache w1 ?k = Some defs" ..
  from parseFile_hit [OF assms(3,4) c] assms(2)
  have "r2 = documentOf defs" "newEvents w1 w2 = FsReadFile file # successOf file defs"
    by (auto simp: newEvents_def)
  with c show ?thesis by simp
qed

lemma parseFile_rejected_again:
  assumes "parseFile ext file w = (r1, w1)" and "parseFile ext file w1 = (r2, w2)"
    and "readFile ext file = Inr contents" and "indexOf contents ''graphql'' \<noteq> - 1"
    and "cache w (md5 ext (file @ contents)) = None"
    and "isl (fst (findGraphQLTags ext file contents))"
  shows "cache w1 = cache w \<and> r1 = None \<and>
         PreprocessSource file contents \<in> set (newEvents w1 w2)"
proof -
  obtain a evs where f: "findGraphQLTags ext file contents = (a, evs)"
    by (cases "findGraphQLTags ext file contents")
  from assms(6) f obtain err where a: "a = Inl err" by (cases a) auto
  from parseFile_miss_error [OF assms(3,4,5) f [unfolded a]] assms(1)
  have 1: "cache w1 = cache w" "r1 = None" by auto
  with assms(5) have "cache w1 (md5 ext (file @ contents)) = None" by simp
  from parseFile_miss_reruns [OF assms(3,4) this] assms(2)
  have "PreprocessSource file contents \<in> set (newEvents w1 w2)" by simp
  with 1 show ?thesis by simp
qed

lemma editedExample_indexOf: "indexOf editedSource ''graphql'' \<noteq> - 1"
  by (simp add: editedSource_def indexOf_def)

lemma typoExample_indexOf: "indexOf typoSource ''graphql'' = - 1"
  by (simp add: typoSource_def indexOf_def)

lemma pageWorld_cache:
  "cache pageWorld =
     [''src/pages/index.js'' @ pageSource \<mapsto>
        [\<lparr>node = \<lparr>def_name = Some \<lparr>name_value = ''srcPagesIndexJs2417117884'',
                                     name_kind = ''Name''\<rparr>,
                     def_loc_start = 0\<rparr>,
          isStaticQuery = None, isHook = None, q_text = None, q_hash = None,
          documentLocation = ''21-0''\<rparr>]]"
proof -
  let ?ext = "demoExt pageSource pageAst"
  have r: "readFile ?ext ''src/pages/index.js'' = Inr pageSource" by (simp add: demoExt_def)
  have c: "cache emptyWorld (md5 ?ext (''src/pages/index.js'' @ pageSource)) = None"
    by (simp add: emptyWorld_def)
  obtain defs evs where
    f: "findGraphQLTags ?ext ''src/pages/index.js'' pageSource = (Inr defs, evs)"
    using pageExample_findGraphQLTags
    by (cases "findGraphQLTags ?ext ''src/pages/index.js'' pageSource") auto
  with pageExample_findGraphQLTags have d: "defs =
        [\<lparr>node = \<lparr>def_name = Some \<lparr>name_value = ''srcPagesIndexJs2417117884'',
                                     name_kind = ''Name''\<rparr>,
                     def_loc_start = 0\<rparr>,
          isStaticQuery = None, isHook = None, q_text = None, q_hash = None,
          documentLocation = ''21-0''\<rparr>]"
    by simp
  have m: "md5 ?ext (''src/pages/index.js'' @ pageSource) = ''src/pages/index.js'' @ pageSource"
    by (simp add: demoExt_def)
  from parseFile_miss [OF r pageExample_indexOf c f] d m show ?thesis
    by (simp add: pageWorld_def emptyWorld_def)
qed

lemma editedWorld_cache:
  "cache editedWorld (''src/pages/index.js'' @ pageSource) =
     Some [\<lparr>node = \<lparr>def_name = Some \<lparr>name_value = ''srcPagesIndexJs2417117884'',
                                      name_kind = ''Name''\<rparr>,
                      def_loc_start = 0\<rparr>,
           isStaticQuery = None, isHook = None, q_text = None, q_hash = None,
           documentLocation = ''21-0''\<rparr>]"
proof -
  let ?ext = "demoExt editedSource pageAst"
  have r: "readFile ?ext ''src/pages/index.js'' = Inr editedSource" by (simp add: demoExt_def)
  have k: "''src/pages/index.js'' @ pageSource \<noteq> md5 ?ext (''src/pages/index.js'' @ editedSource)"
    by (simp add: demoExt_def pageSource_def editedSource_def)
  have p: "parseFile ?ext ''src/pages/index.js'' pageWorld =
             (fst (parseFile ?ext ''src/pages/index.js'' pageWorld), editedWorld)"
    by (simp add: editedWorld_def)
  from parseFile_cache_other [OF p r k] show ?thesis by (simp add: pageWorld_cache)
qed

text \<open>
  C3 (as the code has it): parsing a file twice with unchanged path and
  content gives the same result both times. When the extraction of the file
  raises no exception, the second call runs neither the preprocessor nor the
  parser (nor, therefore, a traversal); for a text that contains \<open>graphql\<close> it
  finds the list under the md5 key of path and content, returns the Document
  of that list (null for an empty list), and its only events are the read and,
  for a list that is not empty, the success notification. When the extraction
  raises an exception, nothing is stored and the second call extracts again.
  After the first call, a call for the same path with any content runs the
  extraction exactly when that content contains \<open>graphql\<close> and the cache holds
  no list under the md5 key of the path followed by that content; and the
  first call changed the cache at most by storing the extracted list under
  the key of its own content.
\<close>

theorem parseFile_twice:
  assumes "parseFile ext file w = (r1, w1)" and "parseFile ext file w1 = (r2, w2)"
  shows "r2 = r1 \<and>
         ((\<forall>contents. readFile ext file = Inr contents \<longrightarrow>
              \<not> isl (fst (findGraphQLTags ext file contents))) \<longrightarrow>
            \<not> list_ex isExtractionCall (newEvents w1 w2)) \<and>
         (\<forall>contents.
            readFile ext file = Inr contents \<and> indexOf contents ''graphql'' \<noteq> - 1 \<and>
            \<not> isl (fst (findGraphQLTags ext file contents)) \<longrightarrow>
            (\<exists>defs. cache w1 (md5 ext (file @ contents)) = Some defs \<and> r2 = documentOf defs \<and>
               newEvents w1 w2 = FsReadFile file # successOf file defs)) \<and>
         (\<forall>contents.
            readFile ext file = Inr contents \<and> indexOf contents ''graphql'' \<noteq> - 1 \<and>
            cache w (md5 ext (file @ contents)) = None \<and>
            isl (fst (findGraphQLTags ext file contents)) \<longrightarrow>
            cache w1 = cache w \<and> r1 = None \<and>
            PreprocessSource file contents \<in> set (newEvents w1 w2)) \<and>
         (\<forall>contents'.
            (list_ex isExtractionCall
               (newEvents w1 (snd (parseFile (ext\<lparr>readFile := (\<lambda>f. Inr contents')\<rparr>) file w1))) \<longleftrightarrow>
             indexOf contents' ''graphql'' \<noteq> - 1 \<and> cache w1 (md5 ext (file @ contents')) = None) \<and>
            (PreprocessSource file contents' \<in>
               set (newEvents w1 (snd (parseFile (ext\<lparr>readFile := (\<lambda>f. Inr contents')\<rparr>) file w1))) \<longleftrightarrow>
             indexOf contents' ''graphql'' \<noteq> - 1 \<and> cache w1 (md5 ext (file @ contents')) = None)) \<and>
         (cache w1 = cache w \<or>
          (\<exists>contents defs evs.
             readFile ext file = Inr contents \<and> indexOf contents ''graphql'' \<noteq> - 1 \<and>
             cache w (md5 ext (file @ contents)) = None \<and>
             findGraphQLTags ext file contents = (Inr defs, evs) \<and>
             cache w1 = (cache w)(md5 ext (file @ contents) \<mapsto> defs)))"
proof (intro conjI)
  show "r2 = r1" by (rule parseFile_same_result [OF assms])
  show "(\<forall>contents. readFile ext file = Inr contents \<longrightarrow>
              \<not> isl (fst (findGraphQLTags ext file contents))) \<longrightarrow>
            \<not> list_ex isExtractionCall (newEvents w1 w2)"
    by (rule impI) (rule parseFile_second_hits [OF assms])
  show "\<forall>contents.
            readFile ext file = Inr contents \<and> indexOf contents ''graphql'' \<noteq> - 1 \<and>
            \<not> isl (fst (findGraphQLTags ext file contents)) \<longrightarrow>
            (\<exists>defs. cache w1 (md5 ext (file @ contents)) = Some defs \<and> r2 = documentOf defs \<and>
               newEvents w1 w2 = FsReadFile file # successOf file defs)"
    by (intro allI impI, elim conjE) (rule parseFile_second_served [OF assms])
  show "\<forall>contents.
            readFile ext file = Inr contents \<and> indexOf contents ''graphql'' \<noteq> - 1 \<and>
            cache w (md5 ext (file @ contents)) = None \<and>
            isl (fst (findGraphQLTags ext file contents)) \<longrightarrow>
            cache w1 = cache w \<and> r1 = None \<and>
            PreprocessSource file contents \<in> set (newEvents w1 w2)"
    by (intro allI impI, elim conjE) (rule parseFile_rejected_again [OF assms])
  show "\<forall>contents'.
            (list_ex isExtractionCall
               (newEvents w1 (snd (parseFile (ext\<lparr>readFile := (\<lambda>f. Inr contents')\<rparr>) file w1))) \<longleftrightarrow>
             indexOf contents' ''graphql'' \<noteq> - 1 \<and> cache w1 (md5 ext (file @ contents')) = None) \<and>
            (PreprocessSource file contents' \<in>
               set (newEvents w1 (snd (parseFile (ext\<lparr>readFile := (\<lambda>f. Inr contents')\<rparr>) file w1))) \<longleftrightarrow>
             indexOf contents' ''graphql'' \<noteq> - 1 \<and> cache w1 (md5 ext (file @ contents')) = None)"
  proof
    fix contents'
    let ?ext' = "ext\<lparr>readFile := (\<lambda>f. Inr contents')\<rparr>"
    have "readFile ?ext' file = Inr contents'" by simp
    from parseFile_reruns_iff [OF this, of w1]
    show "(list_ex isExtractionCall
               (newEvents w1 (snd (parseFile ?ext' file w1))) \<longleftrightarrow>
             indexOf contents' ''graphql'' \<noteq> - 1 \<and> cache w1 (md5 ext (file @ contents')) = None) \<and>
            (PreprocessSource file contents' \<in>
               set (newEvents w1 (snd (parseFile ?ext' file w1))) \<longleftrightarrow>
             indexOf contents' ''graphql'' \<noteq> - 1 \<and> cache w1 (md5 ext (file @ contents')) = None)"
      by simp
  qed
  show "cache w1 = cache w \<or>
          (\<exists>contents defs evs.
             readFile ext file = Inr contents \<and> indexOf contents ''graphql'' \<noteq> - 1 \<and>
             cache w (md5 ext (file @ contents)) = None \<and>
             findGraphQLTags ext file contents = (Inr defs, evs) \<and>
             cache w1 = (cache w)(md5 ext (file @ contents) \<mapsto> defs))"
    by (rule parseFile_cache_after [OF assms(1)])
qed

theorem parseFile_twice_witness:
  "fst (parseFile (demoExt pageSource pageAst) ''src/pages/index.js'' pageWorld) =
     fst (parseFile (demoExt pageSource pageAst) ''src/pages/index.js'' emptyWorld) \<and>
   \<not> list_ex isExtractionCall
       (newEvents pageWorld
          (snd (parseFile (demoExt pageSource pageAst) ''src/pages/index.js'' pageWorld))) \<and>
   newEvents pageWorld
     (snd (parseFile (demoExt pageSource pageAst) ''src/pages/index.js'' pageWorld)) =
     [FsReadFile ''src/pages/index.js'', QueryExtractedBabelSuccess ''src/pages/index.js''] \<and>
   PreprocessSource ''src/pages/index.js'' editedSource \<in>
     set (newEvents pageWorld
            (snd (parseFile ((demoExt pageSource pageAst)\<lparr>readFile := (\<lambda>f. Inr editedSource)\<rparr>)
               ''src/pages/index.js'' pageWorld))) \<and>
   cache (snd (parseFile brokenExt ''src/pages/index.js'' emptyWorld)) = cache emptyWorld \<and>
   PreprocessSource ''src/pages/index.js'' brokenSource \<in>
     set (newEvents (snd (parseFile brokenExt ''src/pages/index.js'' emptyWorld))
            (snd (parseFile brokenExt ''src/pages/index.js''
               (snd (parseFile brokenExt ''src/pages/index.js'' emptyWorld)))))"
proof -
  let ?ext = "demoExt pageSource pageAst"
  let ?q = "\<lparr>node = \<lparr>def_name = Some \<lparr>name_value = ''srcPagesIndexJs2417117884'',
                                          name_kind = ''Name''\<rparr>,
                          def_loc_start = 0\<rparr>,
             isStaticQuery = None, isHook = None, q_text = None, q_hash = None,
             documentLocation = ''21-0''\<rparr>"
  note t = parseFile_twice [OF surjective_pairing surjective_pairing,
             of ?ext "''src/pages/index.js''" emptyWorld, folded pageWorld_def]
  note tb = parseFile_twice [OF surjective_pairing surjective_pairing,
             of brokenExt "''src/pages/index.js''" emptyWorld]
  have ok: "\<forall>contents. readFile ?ext ''src/pages/index.js'' = Inr contents \<longrightarrow>
              \<not> isl (fst (findGraphQLTags ?ext ''src/pages/index.js'' contents))"
  proof (intro allI impI)
    fix contents assume "readFile ?ext ''src/pages/index.js'' = Inr contents"
    then have "contents = pageSource" by (simp add: demoExt_def)
    then show "\<not> isl (fst (findGraphQLTags ?ext ''src/pages/index.js'' contents))"
      by (simp add: pageExample_findGraphQLTags)
  qed
  from t [THEN conjunct1]
  have t1: "fst (parseFile ?ext ''src/pages/index.js'' pageWorld) =
     fst (parseFile ?ext ''src/pages/index.js'' emptyWorld)" .
  from t [THEN conjunct2, THEN conjunct1, THEN mp, OF ok]
  have t2: "\<not> list_ex isExtractionCall
       (newEvents pageWorld (snd (parseFile ?ext ''src/pages/index.js'' pageWorld)))" .
  have h3: "readFile ?ext ''src/pages/index.js'' = Inr pageSource \<and>
            indexOf pageSource ''graphql'' \<noteq> - 1 \<and>
            \<not> isl (fst (findGraphQLTags ?ext ''src/pages/index.js'' pageSource))"
  proof (intro conjI)
    show "readFile ?ext ''src/pages/index.js'' = Inr pageSource" by (simp add: demoExt_def)
    show "indexOf pageSource ''graphql'' \<noteq> - 1" by (rule pageExample_indexOf)
    show "\<not> isl (fst (findGraphQLTags ?ext ''src/pages/index.js'' pageSource))"
      by (simp add: pageExample_findGraphQLTags)
  qed
  from t [THEN conjunct2, THEN conjunct2, THEN conjunct1, rule_format, OF h3]
  obtain defs where
    d: "cache pageWorld (md5 ?ext (''src/pages/index.js'' @ pageSource)) = Some defs"
       "newEvents pageWorld (snd (parseFile ?ext ''src/pages/index.js'' pageWorld)) =
          FsReadFile ''src/pages/index.js'' # successOf ''src/pages/index.js'' defs"
    by blast
  from d(1) have "defs = [?q]" by (simp add: pageWorld_cache demoExt_def)
  with d(2) have t3: "newEvents pageWorld
     (snd (parseFile ?ext ''src/pages/index.js'' pageWorld)) =
     [FsReadFile ''src/pages/index.js'', QueryExtractedBabelSuccess ''src/pages/index.js'']"
    by (simp add: successOf_def)
  have h5: "indexOf editedSource ''graphql'' \<noteq> - 1 \<and>
            cache pageWorld (md5 ?ext (''src/pages/index.js'' @ editedSource)) = None"
  proof (intro conjI)
    show "indexOf editedSource ''graphql'' \<noteq> - 1" by (rule editedExample_indexOf)
    show "cache pageWorld (md5 ?ext (''src/pages/index.js'' @ editedSource)) = None"
      by (simp add: pageWorld_cache demoExt_def editedSource_def pageSource_def)
  qed
  from t [THEN conjunct2, THEN conjunct2, THEN conjunct2, THEN conjunct2, THEN conjunct1,
          THEN spec, THEN conjunct2, THEN iffD2, OF h5]
  have t5: "PreprocessSource ''src/pages/index.js'' editedSource \<in>
     set (newEvents pageWorld
            (snd (parseFile (?ext\<lparr>readFile := (\<lambda>f. Inr editedSource)\<rparr>)
               ''src/pages/index.js'' pageWorld)))" .
  have h4: "readFile brokenExt ''src/pages/index.js'' = Inr brokenSource \<and>
            indexOf brokenSource ''graphql'' \<noteq> - 1 \<and>
            cache emptyWorld (md5 brokenExt (''src/pages/index.js'' @ brokenSource)) = None \<and>
            isl (fst (findGraphQLTags brokenExt ''src/pages/index.js'' brokenSource))"
  proof (intro conjI)
    show "readFile brokenExt ''src/pages/index.js'' = Inr brokenSource"
      by (simp add: brokenExt_def demoExt_def)
    show "indexOf brokenSource ''graphql'' \<noteq> - 1" by (rule brokenExample_indexOf)
    show "cache emptyWorld (md5 brokenExt (''src/pages/index.js'' @ brokenSource)) = None"
      by (simp add: emptyWorld_def)
    show "isl (fst (findGraphQLTags brokenExt ''src/pages/index.js'' brokenSource))"
      by (simp add: brokenExample_findGraphQLTags)
  qed
  from tb [THEN conjunct2, THEN conjunct2, THEN conjunct2, THEN conjunct1, rule_format, OF h4]
  have t4: "cache (snd (parseFile brokenExt ''src/pages/index.js'' emptyWorld)) = cache emptyWorld"
    "PreprocessSource ''src/pages/index.js'' brokenSource \<in>
     set (newEvents (snd (parseFile brokenExt ''src/pages/index.js'' emptyWorld))
            (snd (parseFile brokenExt ''src/pages/index.js''
               (snd (parseFile brokenExt ''src/pages/index.js'' emptyWorld)))))"
    by simp_all
  from t1 t2 t3 t5 t4 show ?thesis by (intro conjI)
qed

text \<open>
  The claim as stated fails in three ways. A change of one character that
  removes the tag identifier: the key would differ and nothing is cached
  under it, yet the call ends after the read. A change back to a content
  parsed before: the content and the key differ from those of the call
  before, which did extract, yet the list is served from the cache, the
  events being the read and the success notification. And an extraction that
  raises an exception: the assignment to the cache never happens, so the
  second call of the unchanged file preprocesses, parses and traverses again.
\<close>

theorem changed_content_not_extracted_again:
  "typoSource \<noteq> pageSource \<and>
   md5 (demoExt typoSource pageAst) (''src/pages/index.js'' @ typoSource) \<noteq>
     md5 (demoExt pageSource pageAst) (''src/pages/index.js'' @ pageSource) \<and>
   cache pageWorld (md5 (demoExt typoSource pageAst) (''src/pages/index.js'' @ typoSource)) = None \<and>
   parseFile (demoExt typoSource pageAst) ''src/pages/index.js'' pageWorld =
     (None, pageWorld\<lparr>trace := trace pageWorld @ [FsReadFile ''src/pages/index.js'']\<rparr>) \<and>
   editedSource \<noteq> pageSource \<and>
   md5 (demoExt pageSource pageAst) (''src/pages/index.js'' @ pageSource) \<noteq>
     md5 (demoExt editedSource pageAst) (''src/pages/index.js'' @ editedSource) \<and>
   PreprocessSource ''src/pages/index.js'' editedSource \<in> set (newEvents pageWorld editedWorld) \<and>
   newEvents editedWorld
     (snd (parseFile (demoExt pageSource pageAst) ''src/pages/index.js'' editedWorld)) =
     [FsReadFile ''src/pages/index.js'', QueryExtractedBabelSuccess ''src/pages/index.js''] \<and>
   newEvents (snd (parseFile brokenExt ''src/pages/index.js'' emptyWorld))
     (snd (parseFile brokenExt ''src/pages/index.js''
        (snd (parseFile brokenExt ''src/pages/index.js'' emptyWorld)))) =
   [FsReadFile ''src/pages/index.js'',
    PreprocessSource ''src/pages/index.js'' brokenSource,
    BabelParseToAst brokenSource ''src/pages/index.js'',
    ReportError ''There was a problem parsing the GraphQL query in file: src/pages/index.js''
      (Some ''GraphQLError: Syntax Error: Expected Name, found <EOF>''),
    QueryExtractionGraphQLError ''src/pages/index.js'']"
proof (intro conjI)
  show "typoSource \<noteq> pageSource" by (simp add: typoSource_def pageSource_def)
  show "md5 (demoExt typoSource pageAst) (''src/pages/index.js'' @ typoSource) \<noteq>
     md5 (demoExt pageSource pageAst) (''src/pages/index.js'' @ pageSource)"
    by (simp add: demoExt_def typoSource_def pageSource_def)
  show "cache pageWorld (md5 (demoExt typoSource pageAst) (''src/pages/index.js'' @ typoSource)) =
          None"
    by (simp add: pageWorld_cache demoExt_def typoSource_def pageSource_def)
  have r: "readFile (demoExt typoSource pageAst) ''src/pages/index.js'' = Inr typoSource"
    by (simp add: demoExt_def)
  show "parseFile (demoExt typoSource pageAst) ''src/pages/index.js'' pageWorld =
     (None, pageWorld\<lparr>trace := trace pageWorld @ [FsReadFile ''src/pages/index.js'']\<rparr>)"
    by (rule parseFile_no_tag [OF r typoExample_indexOf])
  show "editedSource \<noteq> pageSource" by (simp add: editedSource_def pageSource_def)
  show "md5 (demoExt pageSource pageAst) (''src/pages/index.js'' @ pageSource) \<noteq>
     md5 (demoExt editedSource pageAst) (''src/pages/index.js'' @ editedSource)"
    by (simp add: demoExt_def editedSource_def pageSource_def)
  have re: "readFile (demoExt editedSource pageAst) ''src/pages/index.js'' = Inr editedSource"
    by (simp add: demoExt_def)
  have ce: "cache pageWorld
              (md5 (demoExt editedSource pageAst) (''src/pages/index.js'' @ editedSource)) = None"
    by (simp add: pageWorld_cache demoExt_def editedSource_def pageSource_def)
  from parseFile_miss_reruns [OF re editedExample_indexOf ce]
  show "PreprocessSource ''src/pages/index.js'' editedSource \<in>
          set (newEvents pageWorld editedWorld)"
    by (simp add: editedWorld_def)
  have rp: "readFile (demoExt pageSource pageAst) ''src/pages/index.js'' = Inr pageSource"
    by (simp add: demoExt_def)
  have cp: "cache editedWorld
              (md5 (demoExt pageSource pageAst) (''src/pages/index.js'' @ pageSource)) =
            Some [\<lparr>node = \<lparr>def_name = Some \<lparr>name_value = ''srcPagesIndexJs2417117884'',
                                      name_kind = ''Name''\<rparr>,
                      def_loc_start = 0\<rparr>,
                   isStaticQuery = None, isHook = None, q_text = None, q_hash = None,
                   documentLocation = ''21-0''\<rparr>]"
    using editedWorld_cache by (simp add: demoExt_def)
  from parseFile_hit [OF rp pageExample_indexOf cp]
  show "newEvents editedWorld
     (snd (parseFile (demoExt pageSource pageAst) ''src/pages/index.js'' editedWorld)) =
     [FsReadFile ''src/pages/index.js'', QueryExtractedBabelSuccess ''src/pages/index.js'']"
    by (simp add: newEvents_def successOf_def)
  let ?w1 = "snd (parseFile brokenExt ''src/pages/index.js'' emptyWorld)"
  have rb: "readFile brokenExt ''src/pages/index.js'' = Inr brokenSource"
    by (simp add: brokenExt_def demoExt_def)
  have cb: "cache ?w1 (md5 brokenExt (''src/pages/index.js'' @ brokenSource)) = None"
    by (simp add: brokenExample_first)
  from parseFile_miss_error [OF rb brokenExample_indexOf cb brokenExample_findGraphQLTags]
  show "newEvents ?w1 (snd (parseFile brokenExt ''src/pages/index.js'' ?w1)) =
   [FsReadFile ''src/pages/index.js'',
    PreprocessSource ''src/pages/index.js'' brokenSource,
    BabelParseToAst brokenSource ''src/pages/index.js'',
    ReportError ''There was a problem parsing the GraphQL query in file: src/pages/index.js''
      (Some ''GraphQLError: Syntax Error: Expected Name, found <EOF>''),
    QueryExtractionGraphQLError ''src/pages/index.js'']"
    by (simp add: newEvents_def)
qed

subsection \<open>The batch\<close>


lemma parseFilesInto_world:
  "snd (parseFilesInto ext xs docs w) = snd (parseFilesInto ext xs docs' w)"
  by (induction xs arbitrary: docs docs' w) (auto split: prod.splits option.splits)











subsection \<open>One fragment for one variable\<close>
















subsection \<open>A variable that cannot be resolved\<close>

text \<open>
  When no declarator of the variable has a tagged template as initialiser and
  every declarator of it has some initialiser, the search leaves \<open>queries\<close>
  alone and emits the warning, whose message names the variable, the file and
  the calling construct. When such a declarator has no initialiser, the search
  throws instead.
\<close>

lemma declaratorVisitor_skips:
  assumes "\<not> declaresTemplate varName x" and "\<not> declaresWithoutInit varName x"
  shows "declaratorVisitor ext file h varName x (found, s) = Inr (found, s)"
proof (cases x)
  case (VariableDeclarator i init)
  with assms show ?thesis by (cases init) auto
qed simp_all

lemma forEach_declaratorVisitor_skips:
  assumes "\<not> list_ex (declaresTemplate varName) xs"
    and "\<not> list_ex (declaresWithoutInit varName) xs"
  shows "forEach (declaratorVisitor ext file h varName) xs (found, s) = Inr (found, s)"
  using assms by (induction xs) (simp_all add: declaratorVisitor_skips)

lemma findVariable_unresolved:
  assumes "\<not> list_ex (declaresTemplate varName) (descendants root)"
    and "\<not> list_ex (declaresWithoutInit varName) (descendants root)"
  shows "findVariable ext file root h usage varName s =
           Inr (s\<lparr>emitted := emitted s @ [warnForUnknownQueryVariable varName file usage]\<rparr>)"
  using forEach_declaratorVisitor_skips [OF assms, of ext "file" h False s]
  by (simp add: findVariable_def traverse_def)

lemma declaratorVisitor_throws:
  assumes "declaresWithoutInit varName x"
  shows "declaratorVisitor ext file h varName x (found, s) = Inl (typeErrorInitNull, emitted s)"
proof (cases x)
  case (VariableDeclarator i init)
  with assms show ?thesis by (cases init) auto
qed (use assms in simp_all)

lemma forEach_declaratorVisitor_throws:
  assumes "\<not> list_ex (declaresTemplate varName) xs"
    and "list_ex (declaresWithoutInit varName) xs"
  shows "forEach (declaratorVisitor ext file h varName) xs (found, s) =
           Inl (typeErrorInitNull, emitted s)"
  using assms
proof (induction xs)
  case Nil
  then show ?case by simp
next
  case (Cons x xs)
  show ?case
  proof (cases "declaresWithoutInit varName x")
    case True
    then show ?thesis by (simp add: declaratorVisitor_throws)
  next
    case False
    with Cons show ?thesis by (simp add: declaratorVisitor_skips)
  qed
qed

lemma findVariable_throws:
  assumes "\<not> list_ex (declaresTemplate varName) (descendants root)"
    and "list_ex (declaresWithoutInit varName) (descendants root)"
  shows "findVariable ext file root h usage varName s = Inl (typeErrorInitNull, emitted s)"
  using forEach_declaratorVisitor_throws [OF assms, of ext "file" h False s]
  by (simp add: findVariable_def traverse_def)

lemma warning_names_variable_file_usage:
  "sublist varName (unknownQueryVariableMessage varName file usage) \<and>
   sublist file (unknownQueryVariableMessage varName file usage) \<and>
   sublist usage (unknownQueryVariableMessage varName file usage)"
proof -
  have 1: "sublist varName (a @ varName @ b)" for a b :: string by (rule sublist_appendI)
  have 2: "sublist usage (a @ varName @ b @ usage @ c)" for a b c :: string
    using sublist_appendI [of usage "a @ varName @ b" c] by simp
  have 3: "sublist file (a @ varName @ b @ usage @ c @ file @ d)" for a b c d :: string
    using sublist_appendI [of "file" "a @ varName @ b @ usage @ c" d] by simp
  show ?thesis
    unfolding unknownQueryVariableMessage_def
    by (intro conjI 1 2 3)
qed

text \<open>
  The flag \<open>found\<close> is set as soon as a tagged template is entered, before
  \<open>getGraphQLTag\<close> has looked at its tag: a variable initialised with a template
  that is no query template yields neither a fragment nor the warning.
\<close>

lemma findVariable_other_tag:
  "findVariable
     (ext\<lparr>getGraphQLTag := (\<lambda>t. Inr \<lparr>tag_definitions = None, tag_text = [], tag_hash = [],
                                        tag_isGlobal = False\<rparr>)\<rparr>)
     file
     (OtherNode [VariableDeclarator (Identifier varName None)
                   (Some (TaggedTemplateExpression start []))])
     h usage varName s = Inr s"
  by (simp add: findVariable_def traverse_def)

lemma string_of_nat_71: "string_of_nat 71 = ''71''"
  by (simp add: string_of_nat.simps)

text \<open>
  C5, at a file the claim covers: \<open>Q\<close> is passed as the query and is declared
  without an initialiser. Reading \<open>init.type\<close> throws, \<open>findGraphQLTags\<close>
  rejects, and \<open>parseFile\<close> reports a failure for the file and returns null:
  no warning about \<open>Q\<close> is emitted and the exported page query of the file is
  not extracted.
\<close>

theorem declarator_without_init_is_fatal:
  "parseFile (demoExt unboundSource unboundAst) ''src/pages/index.js'' emptyWorld =
     (None,
      \<lparr>cache = Map.empty,
       trace = [FsReadFile ''src/pages/index.js'',
                PreprocessSource ''src/pages/index.js'' unboundSource,
                BabelParseToAst unboundSource ''src/pages/index.js'',
                ReportError ''There was a problem parsing the GraphQL query in file: src/pages/index.js''
                  (Some ''TypeError: Cannot read property 'type' of null''),
                QueryExtractionGraphQLError ''src/pages/index.js'']\<rparr>)"
proof -
  let ?ext = "demoExt unboundSource unboundAst"
  have r: "readFile ?ext ''src/pages/index.js'' = Inr unboundSource"
    by (simp add: demoExt_def)
  have i: "indexOf unboundSource ''graphql'' \<noteq> - 1"
    by (simp add: unboundSource_def indexOf_def)
  have c: "cache emptyWorld (md5 ?ext (''src/pages/index.js'' @ unboundSource)) = None"
    by (simp add: emptyWorld_def)
  have f: "findGraphQLTags ?ext ''src/pages/index.js'' unboundSource =
     (Inl ''TypeError: Cannot read property 'type' of null'',
      [PreprocessSource ''src/pages/index.js'' unboundSource,
       BabelParseToAst unboundSource ''src/pages/index.js''])"
    by (simp add: demoExt_def unboundAst_def findGraphQLTags_def parseToAst_def
        locateQueries_def traverse_def findVariable_def typeErrorInitNull_def)
  from parseFile_miss_error [OF r i c f] show ?thesis by (simp add: emptyWorld_def)
qed

end
